theory Spec2Isabelle
  imports Complex_Main "HOL-Library.Multiset"
begin

section \<open>Data model\<close>

text \<open>
  JavaScript numbers are modelled as \<open>real\<close>: the stats and tensions of a country and
  every delta are arbitrary reals (no NaN, no infinities, no rounding). The counters
  \<open>tick\<close> and \<open>year\<close> are integers. Objects used as dictionaries are association lists
  in \<open>Object.entries\<close> order where the code iterates over them, and maps where it
  only reads and writes single keys. A field of a record is prefixed with the initials
  of its record (\<open>c_\<close> country, \<open>d_\<close> stat deltas, \<open>e_\<close> event, \<open>w_\<close> world state,
  \<open>dc_\<close> decision, \<open>r_\<close> resolution, \<open>cr_\<close> call result, \<open>a_\<close> agent). Writes to the
  console are left out.
\<close>

record country =
  c_id :: string
  c_name :: string
  c_ideology :: string
  c_power :: real
  c_stability :: real
  c_technology :: real
  c_population :: real
  c_resources :: real
  c_alliances :: "string list"
  c_tensions :: "string \<rightharpoonup> real"
  c_history :: "string list"
  c_collapsing :: bool

text \<open>The stat deltas addressed to one country; an absent key is \<open>None\<close>.\<close>

record deltas =
  d_power :: "real option"
  d_stability :: "real option"
  d_technology :: "real option"
  d_resources :: "real option"
  d_population :: "real option"

text \<open>
  Reading a key of an object literal finds an own key, or else a member inherited from
  \<open>Object.prototype\<close>, or else \<open>undefined\<close>. The inherited members, by the names
  the language gives them, are functions and one object: all of them truthy, none of
  them a string, and \<open>NaN\<close> when converted to a number.
\<close>

definition objectPrototypeMembers :: "string list" where
  "objectPrototypeMembers =
     [''constructor'', ''__proto__'', ''hasOwnProperty'', ''isPrototypeOf'',
      ''propertyIsEnumerable'', ''toLocaleString'', ''toString'', ''valueOf'',
      ''__defineGetter__'', ''__defineSetter__'', ''__lookupGetter__'', ''__lookupSetter__'']"

datatype 'a property = Own 'a | Inherited | Undefined

definition getProperty :: "(string \<rightharpoonup> 'a) \<Rightarrow> string \<Rightarrow> 'a property" where
  "getProperty obj k =
     (case obj k of
        Some v \<Rightarrow> Own v
      | None \<Rightarrow> if k \<in> set objectPrototypeMembers then Inherited else Undefined)"

text \<open>
  The \<open>type\<close> of an event: a string, or the inherited member that
  \<open>mapActionToEventType\<close> returns for a verb named like one.
\<close>

datatype eventType = TypeName string | InheritedMember

text \<open>
  An entry of \<open>globalEvents\<close>. \<open>e_stabilityIndex\<close> is the property
  \<open>stabilityIndex\<close> that \<open>shouldTerminate\<close> reads: \<open>None\<close> when the object has
  no such property. An actor is \<open>None\<close> when the id put into the array is
  \<open>null\<close> or \<open>undefined\<close>.
\<close>

record event =
  e_tick :: int
  e_year :: int
  e_type :: eventType
  e_actors :: "string option list"
  e_description :: string
  e_impact :: "(string \<times> deltas) list"
  e_success :: bool
  e_stabilityIndex :: "real option"

record worldState =
  w_tick :: int
  w_year :: int
  w_countries :: "country list"
  w_globalEvents :: "event list"
  w_status :: string

text \<open>
  A decision of a faction and the resolution of one decision. \<open>dc_target\<close> is
  \<open>None\<close> for \<open>null\<close>; \<open>dc_apiKey\<close> is absent in the fallback decision.
\<close>

record decision =
  dc_agentId :: string
  dc_actorId :: "string option"
  dc_apiKey :: "string option"
  dc_action :: string
  dc_specificAction :: string
  dc_target :: "string option"
  dc_details :: string
  dc_reasoning :: string
  dc_expectedOutcome :: string
  dc_risks :: string

record resolution =
  r_success :: bool
  r_successLevel :: string
  r_changes :: "(string \<times> deltas) list"
  r_description :: string
  r_newTensions :: "(string \<times> real) list"

text \<open>
  What \<open>GeminiClient.call\<close> returns: either the error object built in its
  \<open>catch\<close> block (\<open>cr_error\<close> is the truthy \<open>error\<close> property, with
  \<open>cr_shouldRetry\<close>), or the parsed answer of the service, of which the fields of a
  decision are kept. A parsed answer may itself carry an \<open>error\<close> property, and
  the keys \<open>agentId\<close>, \<open>actorId\<close> and \<open>apiKey\<close>, which are \<open>None\<close> when the
  answer does not have them.
\<close>

record callResult =
  cr_error :: "string option"
  cr_shouldRetry :: bool
  cr_agentId :: "string option"
  cr_actorId :: "string option option"
  cr_apiKey :: "string option option"
  cr_action :: string
  cr_specificAction :: string
  cr_target :: "string option"
  cr_details :: string
  cr_reasoning :: string
  cr_expectedOutcome :: string
  cr_risks :: string

text \<open>An entry of the \<open>clients\<close> map of the agent manager: the agent id and its configuration.\<close>

record agent =
  a_id :: string
  a_role :: string
  a_apiKey :: string
  a_countryId :: "string option"

datatype reason = TIME_LIMIT | HEGEMONY | TOTAL_COLLAPSE | PERFECT_ORDER

text \<open>
  The result of \<open>shouldTerminate\<close>: \<open>{terminate: false}\<close> or
  \<open>{terminate: true, reason, message}\<close>; the message, a text for the console, is left out.
\<close>

datatype terminationCheck = Continue | Terminate reason

section \<open>State mutation (worldState.js, models.js)\<close>

definition clampValue :: "real \<Rightarrow> real \<Rightarrow> real \<Rightarrow> real" where
  "clampValue v mn mx = max mn (min mx v)"

text \<open>
  \<open>countries.find(p)\<close> followed by assignments to the fields of the object found:
  the first element that satisfies \<open>p\<close> is replaced, the list is unchanged when there
  is none.
\<close>

fun update_first :: "('a \<Rightarrow> bool) \<Rightarrow> ('a \<Rightarrow> 'a) \<Rightarrow> 'a list \<Rightarrow> 'a list" where
  "update_first p f [] = []"
| "update_first p f (x # xs) = (if p x then f x # xs else x # update_first p f xs)"

definition findCountry :: "string \<Rightarrow> country list \<Rightarrow> country option" where
  "findCountry k cs = find (\<lambda>c. c_id c = k) cs"

text \<open>
  The body of the loop of \<open>applyChanges\<close> for a country that was found, one
  definition for each statement, in the order of the source.
\<close>

definition addPower :: "deltas \<Rightarrow> country \<Rightarrow> country" where
  "addPower d c = (case d_power d of None \<Rightarrow> c
     | Some v \<Rightarrow> c\<lparr>c_power := clampValue (c_power c + v) 0 100\<rparr>)"

definition addStability :: "deltas \<Rightarrow> country \<Rightarrow> country" where
  "addStability d c = (case d_stability d of None \<Rightarrow> c
     | Some v \<Rightarrow> c\<lparr>c_stability := clampValue (c_stability c + v) 0 100\<rparr>)"

definition addTechnology :: "deltas \<Rightarrow> country \<Rightarrow> country" where
  "addTechnology d c = (case d_technology d of None \<Rightarrow> c
     | Some v \<Rightarrow> c\<lparr>c_technology := clampValue (c_technology c + v) 0 100\<rparr>)"

definition addResources :: "deltas \<Rightarrow> country \<Rightarrow> country" where
  "addResources d c = (case d_resources d of None \<Rightarrow> c
     | Some v \<Rightarrow> c\<lparr>c_resources := clampValue (c_resources c + v) 0 100\<rparr>)"

definition addPopulation :: "deltas \<Rightarrow> country \<Rightarrow> country" where
  "addPopulation d c = (case d_population d of None \<Rightarrow> c
     | Some v \<Rightarrow> c\<lparr>c_population := max 0 (c_population c + v)\<rparr>)"

definition checkCritical :: "country \<Rightarrow> country" where
  "checkCritical c =
     (if c_stability c < 20 \<and> c_power c < 30
      then (if \<not> c_collapsing c then c\<lparr>c_collapsing := True\<rparr> else c)
      else c\<lparr>c_collapsing := False\<rparr>)"

definition absoluteCollapse :: "country \<Rightarrow> country" where
  "absoluteCollapse c =
     (if c_stability c < 5 then c\<lparr>c_power := min (c_power c) 20\<rparr> else c)"

definition applyDeltas :: "deltas \<Rightarrow> country \<Rightarrow> country" where
  "applyDeltas d c =
     absoluteCollapse (checkCritical (addPopulation d (addResources d
       (addTechnology d (addStability d (addPower d c))))))"

definition applyChangesStep :: "country list \<Rightarrow> string \<times> deltas \<Rightarrow> country list" where
  "applyChangesStep cs kd = update_first (\<lambda>c. c_id c = fst kd) (applyDeltas (snd kd)) cs"

definition applyChanges :: "worldState \<Rightarrow> (string \<times> deltas) list \<Rightarrow> worldState" where
  "applyChanges ws changes = ws\<lparr>w_countries := foldl applyChangesStep (w_countries ws) changes\<rparr>"

text \<open>The range invariant of the data model for one country and for a state.\<close>

definition statsInRange :: "country \<Rightarrow> bool" where
  "statsInRange c \<longleftrightarrow>
     0 \<le> c_power c \<and> c_power c \<le> 100 \<and>
     0 \<le> c_stability c \<and> c_stability c \<le> 100 \<and>
     0 \<le> c_technology c \<and> c_technology c \<le> 100 \<and>
     0 \<le> c_resources c \<and> c_resources c \<le> 100 \<and>
     0 \<le> c_population c"

definition worldInRange :: "worldState \<Rightarrow> bool" where
  "worldInRange ws \<longleftrightarrow> list_all statsInRange (w_countries ws)"

text \<open>
  \<open>applyTensionChanges\<close>. \<open>tensionOf c k\<close> is the read
  \<open>c.tensions[k] || 0\<close>; a country without a \<open>tensions\<close> object has the empty map.
  The two writes of one entry are made one after the other on the state, so that the
  second reads what the first wrote when actor and target are the same object.
\<close>

definition tensionOf :: "country \<Rightarrow> string \<Rightarrow> real" where
  "tensionOf c k = (case c_tensions c k of None \<Rightarrow> 0 | Some v \<Rightarrow> v)"

definition addTension :: "string \<Rightarrow> real \<Rightarrow> country \<Rightarrow> country" where
  "addTension k delta c =
     c\<lparr>c_tensions := (c_tensions c)(k \<mapsto> clampValue (tensionOf c k + delta) (- 100) 100)\<rparr>"

definition applyTensionEntry :: "string \<Rightarrow> country list \<Rightarrow> string \<times> real \<Rightarrow> country list" where
  "applyTensionEntry countryId cs td =
     (let targetId = fst td; delta = snd td;
          cs1 = update_first (\<lambda>c. c_id c = countryId) (addTension targetId delta) cs
      in case findCountry targetId cs1 of
           None \<Rightarrow> cs1
         | Some target \<Rightarrow>
             (let reciprocalDelta = delta * 0.7
              in update_first (\<lambda>c. c_id c = targetId) (addTension countryId reciprocalDelta) cs1))"

definition applyTensionChangesStep ::
  "country list \<Rightarrow> string \<times> (string \<times> real) list \<Rightarrow> country list" where
  "applyTensionChangesStep cs kt =
     (case findCountry (fst kt) cs of
        None \<Rightarrow> cs
      | Some country \<Rightarrow> foldl (applyTensionEntry (fst kt)) cs (snd kt))"

definition applyTensionChanges ::
  "worldState \<Rightarrow> (string \<times> (string \<times> real) list) list \<Rightarrow> worldState" where
  "applyTensionChanges ws tensionChanges =
     ws\<lparr>w_countries := foldl applyTensionChangesStep (w_countries ws) tensionChanges\<rparr>"

text \<open>\<open>xs.slice(-n)\<close> for a positive \<open>n\<close>: the last \<open>n\<close> elements, all of them when there are fewer.\<close>

definition slice_last :: "nat \<Rightarrow> 'a list \<Rightarrow> 'a list" where
  "slice_last n xs = drop (length xs - n) xs"

definition addEvent :: "worldState \<Rightarrow> event \<Rightarrow> worldState" where
  "addEvent ws ev =
     (let ev1 = ev\<lparr>e_tick := w_tick ws, e_year := w_year ws\<rparr>;
          evs = w_globalEvents ws @ [ev1]
      in ws\<lparr>w_globalEvents := (if length evs > 100 then slice_last 100 evs else evs)\<rparr>)"

definition pushHistory :: "string \<Rightarrow> country \<Rightarrow> country" where
  "pushHistory historyEntry c =
     (let hs = c_history c @ [historyEntry]
      in c\<lparr>c_history := (if length hs > 10 then slice_last 10 hs else hs)\<rparr>)"

definition addCountryHistory :: "worldState \<Rightarrow> string \<Rightarrow> string \<Rightarrow> worldState" where
  "addCountryHistory ws countryId historyEntry =
     ws\<lparr>w_countries := update_first (\<lambda>c. c_id c = countryId) (pushHistory historyEntry) (w_countries ws)\<rparr>"

text \<open>
  \<open>updateAlliances\<close>. An id that is \<open>null\<close> (\<open>None\<close>) is the id of no country, so
  \<open>find\<close> returns nothing for it.
\<close>

definition findCountryOpt :: "string option \<Rightarrow> country list \<Rightarrow> country option" where
  "findCountryOpt k cs = (case k of None \<Rightarrow> None | Some i \<Rightarrow> findCountry i cs)"

definition formAlliance :: "string option \<Rightarrow> country \<Rightarrow> country" where
  "formAlliance k c =
     (case k of None \<Rightarrow> c
      | Some i \<Rightarrow> if i \<in> set (c_alliances c) then c else c\<lparr>c_alliances := c_alliances c @ [i]\<rparr>)"

definition breakAlliance :: "string option \<Rightarrow> country \<Rightarrow> country" where
  "breakAlliance k c = c\<lparr>c_alliances := filter (\<lambda>i. Some i \<noteq> k) (c_alliances c)\<rparr>"

definition updateFirstOpt :: "string option \<Rightarrow> (country \<Rightarrow> country) \<Rightarrow> country list \<Rightarrow> country list" where
  "updateFirstOpt k f cs = update_first (\<lambda>c. Some (c_id c) = k) f cs"

definition updateAlliances ::
  "worldState \<Rightarrow> string option \<Rightarrow> string option \<Rightarrow> string \<Rightarrow> worldState" where
  "updateAlliances ws country1Id country2Id action =
     (case (findCountryOpt country1Id (w_countries ws), findCountryOpt country2Id (w_countries ws)) of
        (Some country1, Some country2) \<Rightarrow>
          if action = ''FORM'' then
            ws\<lparr>w_countries := updateFirstOpt country2Id (formAlliance country1Id)
                  (updateFirstOpt country1Id (formAlliance country2Id) (w_countries ws))\<rparr>
          else if action = ''BREAK'' then
            ws\<lparr>w_countries := updateFirstOpt country2Id (breakAlliance country1Id)
                  (updateFirstOpt country1Id (breakAlliance country2Id) (w_countries ws))\<rparr>
          else ws
      | _ \<Rightarrow> ws)"

text \<open>The bounds of the two logs, as an invariant of a state.\<close>

definition logsBounded :: "worldState \<Rightarrow> bool" where
  "logsBounded ws \<longleftrightarrow>
     length (w_globalEvents ws) \<le> 100 \<and> list_all (\<lambda>c. length (c_history c) \<le> 10) (w_countries ws)"

section \<open>Action resolution (eventResolver.js)\<close>

text \<open>
  \<open>Array.prototype.sort\<close> with a comparator is a stable sort; a comparator result
  that is \<open>NaN\<close> (\<open>None\<close>) counts as 0. It is modelled as the insertion sort that
  puts an element before the first element of the sorted rest that the comparator does
  not place before it. For a comparator that is a difference of ranks this is the one
  stably sorted arrangement of the array; for a comparator that is not consistent the
  language leaves the order to the engine, and the model is one such engine.
\<close>

definition sortOrder :: "int option \<Rightarrow> int" where
  "sortOrder v = (case v of None \<Rightarrow> 0 | Some n \<Rightarrow> n)"

fun insertBy :: "('a \<Rightarrow> 'a \<Rightarrow> int option) \<Rightarrow> 'a \<Rightarrow> 'a list \<Rightarrow> 'a list" where
  "insertBy cmp x [] = [x]"
| "insertBy cmp x (y # ys) =
     (if sortOrder (cmp x y) \<le> 0 then x # y # ys else y # insertBy cmp x ys)"

definition arraySort :: "('a \<Rightarrow> 'a \<Rightarrow> int option) \<Rightarrow> 'a list \<Rightarrow> 'a list" where
  "arraySort cmp xs = foldr (insertBy cmp) xs []"

text \<open>
  The object literal \<open>priority\<close> and \<open>priority[a] || 99\<close>: the number of an own
  key, 99 for a key the object does not have, and for a key that names an inherited
  member that member, which is no number (\<open>None\<close>). A difference with such an
  operand is \<open>NaN\<close>.
\<close>

definition priority :: "string \<rightharpoonup> int" where
  "priority = [''MILITARY'' \<mapsto> 1, ''DIPLOMACY'' \<mapsto> 2, ''ESPIONAGE'' \<mapsto> 3, ''INTERNAL'' \<mapsto> 4]"

definition rank :: "string \<Rightarrow> int option" where
  "rank a =
     (case getProperty priority a of
        Own n \<Rightarrow> Some (if n = 0 then 99 else n)
      | Inherited \<Rightarrow> None
      | Undefined \<Rightarrow> Some 99)"

definition difference :: "int option \<Rightarrow> int option \<Rightarrow> int option" where
  "difference x y =
     (case x of None \<Rightarrow> None | Some m \<Rightarrow> (case y of None \<Rightarrow> None | Some n \<Rightarrow> Some (m - n)))"

definition prioritizeActions :: "decision list \<Rightarrow> decision list" where
  "prioritizeActions decisions =
     arraySort (\<lambda>a b. difference (rank (dc_action a)) (rank (dc_action b))) decisions"

text \<open>The rank of an action in the words of the specification.\<close>

definition specRank :: "string \<Rightarrow> int" where
  "specRank a =
     (if a = ''MILITARY'' then 1 else if a = ''DIPLOMACY'' then 2
      else if a = ''ESPIONAGE'' then 3 else if a = ''INTERNAL'' then 4 else 99)"

text \<open>
  \<open>handleSpecialActions\<close>. Its last part, for \<open>declare_war\<close>, only writes to the
  console and leaves the state as it is.
\<close>

definition handleSpecialActions :: "worldState \<Rightarrow> decision \<Rightarrow> resolution \<Rightarrow> worldState" where
  "handleSpecialActions ws d r =
     (if dc_specificAction d = ''form_alliance'' \<and> r_success r
      then updateAlliances ws (dc_actorId d) (dc_target d) ''FORM''
      else if dc_specificAction d = ''break_alliance''
      then updateAlliances ws (dc_actorId d) (dc_target d) ''BREAK''
      else ws)"

text \<open>
  The events that \<open>resolveActions\<close> builds: the object literal for a resolved
  decision, with \<open>mapActionToEventType\<close> (\<open>mapping[specificAction] || action\<close>)
  and \<open>[actorId, target].filter(Boolean)\<close>, and the \<open>FAILED_ACTION\<close> event of its
  \<open>catch\<close> block, whose \<open>actors\<close> is \<open>[actorId]\<close> as it is. Neither literal has
  a \<open>stabilityIndex\<close> property; \<open>tick\<close> and \<open>year\<close> are set later by
  \<open>addEvent\<close>; the fields \<open>unintendedConsequences\<close> and \<open>successLevel\<close>, which
  nothing modelled here reads, are left out.
\<close>

definition mapping :: "string \<rightharpoonup> string" where
  "mapping =
     [''declare_war'' \<mapsto> ''WAR'', ''ceasefire'' \<mapsto> ''PEACE'',
      ''form_alliance'' \<mapsto> ''ALLIANCE'', ''break_alliance'' \<mapsto> ''ALLIANCE_BROKEN'',
      ''invest_technology'' \<mapsto> ''INNOVATION'', ''stabilize'' \<mapsto> ''INTERNAL_REFORM'',
      ''reform_policy'' \<mapsto> ''REFORM'', ''sabotage'' \<mapsto> ''ESPIONAGE'',
      ''steal_technology'' \<mapsto> ''ESPIONAGE'', ''gather_intel'' \<mapsto> ''INTELLIGENCE'']"

definition mapActionToEventType :: "string \<Rightarrow> string \<Rightarrow> eventType" where
  "mapActionToEventType action specificAction =
     (case getProperty mapping specificAction of
        Own t \<Rightarrow> if t = [] then TypeName action else TypeName t
      | Inherited \<Rightarrow> InheritedMember
      | Undefined \<Rightarrow> TypeName action)"

definition truthyIds :: "string option list \<Rightarrow> string option list" where
  "truthyIds ids = filter (\<lambda>i. i \<noteq> None \<and> i \<noteq> Some []) ids"

definition resolutionEvent :: "decision \<Rightarrow> resolution \<Rightarrow> event" where
  "resolutionEvent d r =
     \<lparr>e_tick = 0, e_year = 0,
      e_type = mapActionToEventType (dc_action d) (dc_specificAction d),
      e_actors = truthyIds [dc_actorId d, dc_target d],
      e_description = r_description r, e_impact = r_changes r, e_success = r_success r,
      e_stabilityIndex = None\<rparr>"

definition failedActionEvent :: "decision \<Rightarrow> event" where
  "failedActionEvent d =
     \<lparr>e_tick = 0, e_year = 0, e_type = TypeName ''FAILED_ACTION'',
      e_actors = [dc_actorId d],
      e_description =
        (case dc_actorId d of None \<Rightarrow> ''undefined'' | Some a \<Rightarrow> a) @ [CHR 0x27] @
        ''s attempt to '' @ dc_specificAction d @ '' failed unexpectedly'',
      e_impact = [], e_success = False, e_stabilityIndex = None\<rparr>"

text \<open>Whether two countries, found by id, list each other as allies.\<close>

definition allied :: "worldState \<Rightarrow> string \<Rightarrow> string \<Rightarrow> bool" where
  "allied ws a b \<longleftrightarrow>
     (case (findCountry a (w_countries ws), findCountry b (w_countries ws)) of
        (Some ca, Some cb) \<Rightarrow> b \<in> set (c_alliances ca) \<and> a \<in> set (c_alliances cb)
      | _ \<Rightarrow> False)"

definition unallied :: "worldState \<Rightarrow> string \<Rightarrow> string \<Rightarrow> bool" where
  "unallied ws a b \<longleftrightarrow>
     (case (findCountry a (w_countries ws), findCountry b (w_countries ws)) of
        (Some ca, Some cb) \<Rightarrow> b \<notin> set (c_alliances ca) \<and> a \<notin> set (c_alliances cb)
      | _ \<Rightarrow> False)"

section \<open>Termination (metrics.js)\<close>

definition shouldTerminate :: "worldState \<Rightarrow> int \<Rightarrow> terminationCheck" where
  "shouldTerminate ws maxYears =
     (if w_year ws \<ge> maxYears then Terminate TIME_LIMIT
      else
        let powerfulNations = filter (\<lambda>c. c_power c > 50 \<and> c_stability c > 30) (w_countries ws)
        in if length powerfulNations = 1 \<and> length (w_countries ws) > 1 then Terminate HEGEMONY
        else
          let survivingNations = filter (\<lambda>c. c_stability c > 20) (w_countries ws)
          in if length survivingNations = 0 then Terminate TOTAL_COLLAPSE
          else
            let recentStability =
                  map (\<lambda>e. case e_stabilityIndex e of None \<Rightarrow> 0 | Some s \<Rightarrow> s)
                    (filter (\<lambda>e. e_type e = TypeName ''TICK_SUMMARY'')
                       (slice_last 20 (w_globalEvents ws)))
            in if length recentStability \<ge> 20 \<and> list_all (\<lambda>s. s \<ge> 95) recentStability
               then Terminate PERFECT_ORDER
               else Continue)"

text \<open>The four conditions in the words of the specification.\<close>

definition timeLimitCond :: "worldState \<Rightarrow> int \<Rightarrow> bool" where
  "timeLimitCond ws maxYears \<longleftrightarrow> w_year ws \<ge> maxYears"

definition hegemonyCond :: "worldState \<Rightarrow> bool" where
  "hegemonyCond ws \<longleftrightarrow>
     length (filter (\<lambda>c. c_power c > 50 \<and> c_stability c > 30) (w_countries ws)) = 1 \<and>
     length (w_countries ws) > 1"

definition totalCollapseCond :: "worldState \<Rightarrow> bool" where
  "totalCollapseCond ws \<longleftrightarrow> list_all (\<lambda>c. \<not> c_stability c > 20) (w_countries ws)"

text \<open>
  The specification's PERFECT_ORDER condition: the tick-summary entries of the event
  log are selected first, and the most recent twenty of them are examined.
\<close>

definition isTickSummary :: "event \<Rightarrow> bool" where
  "isTickSummary e \<longleftrightarrow> e_type e = TypeName ''TICK_SUMMARY''"

definition reportsAtLeast95 :: "event \<Rightarrow> bool" where
  "reportsAtLeast95 e \<longleftrightarrow> (case e_stabilityIndex e of None \<Rightarrow> False | Some s \<Rightarrow> s \<ge> 95)"

definition perfectOrderSpec :: "worldState \<Rightarrow> bool" where
  "perfectOrderSpec ws \<longleftrightarrow>
     (let summaries = filter isTickSummary (w_globalEvents ws)
      in length summaries \<ge> 20 \<and> list_all reportsAtLeast95 (slice_last 20 summaries))"

section \<open>Decision collection (agentManager.js, geminiClient.js)\<close>

text \<open>
  The service behind \<open>GeminiClient.call\<close> is a parameter: \<open>call i\<close> is what the
  \<open>i\<close>-th call of one \<open>callWithRetry\<close> returns (\<open>call\<close> itself catches every
  exception and never throws). \<open>callWithRetry\<close> returns \<open>Inr\<close> the result, or
  \<open>Inl\<close> the message of the error it throws.
\<close>

fun callWithRetryLoop :: "(nat \<Rightarrow> callResult) \<Rightarrow> nat \<Rightarrow> nat \<Rightarrow> string + callResult" where
  "callWithRetryLoop call i 0 = Inl ''Max retries reached for Gemini API call''"
| "callWithRetryLoop call i (Suc n) =
     (let result = call i
      in case cr_error result of
           None \<Rightarrow> Inr result
         | Some e \<Rightarrow> if \<not> cr_shouldRetry result then Inl e
                     else callWithRetryLoop call (Suc i) n)"

definition callWithRetry :: "(nat \<Rightarrow> callResult) \<Rightarrow> nat \<Rightarrow> string + callResult" where
  "callWithRetry call maxRetries = callWithRetryLoop call 0 maxRetries"

definition fallbackDecision :: "agent \<Rightarrow> decision" where
  "fallbackDecision a =
     \<lparr>dc_agentId = a_id a, dc_actorId = a_countryId a, dc_apiKey = None,
      dc_action = ''INTERNAL'', dc_specificAction = ''stabilize'', dc_target = None,
      dc_details = ''Emergency stabilization measures'',
      dc_reasoning = ''AI agent unavailable, default action'',
      dc_expectedOutcome = ''Maintain status quo'', dc_risks = ''None''\<rparr>"

text \<open>
  The decision pushed for an answer: \<open>{agentId, actorId, apiKey, ...decision}\<close>, where
  a key of the answer replaces the one written before the spread.
\<close>

definition agentDecision :: "agent \<Rightarrow> callResult \<Rightarrow> decision" where
  "agentDecision a r =
     \<lparr>dc_agentId = (case cr_agentId r of None \<Rightarrow> a_id a | Some i \<Rightarrow> i),
      dc_actorId = (case cr_actorId r of None \<Rightarrow> a_countryId a | Some i \<Rightarrow> i),
      dc_apiKey = (case cr_apiKey r of None \<Rightarrow> Some (a_apiKey a) | Some k \<Rightarrow> k),
      dc_action = cr_action r, dc_specificAction = cr_specificAction r, dc_target = cr_target r,
      dc_details = cr_details r, dc_reasoning = cr_reasoning r,
      dc_expectedOutcome = cr_expectedOutcome r, dc_risks = cr_risks r\<rparr>"

text \<open>
  One round of the loop of \<open>collectDecisions\<close>: the decisions collected so far and
  one entry of \<open>clients\<close>; \<open>service\<close> gives, for an agent id, the answers of the
  service to that agent's client. The \<open>clients\<close> map is taken as initialised, and the
  construction of the prompt as returning normally.
\<close>

definition collectStep ::
  "(string \<Rightarrow> nat \<Rightarrow> callResult) \<Rightarrow> worldState \<Rightarrow> decision list \<Rightarrow> agent \<Rightarrow> decision list" where
  "collectStep service ws decisions a =
     (if a_role a \<noteq> ''LEADER'' then decisions
      else case findCountryOpt (a_countryId a) (w_countries ws) of
        None \<Rightarrow> decisions
      | Some country \<Rightarrow>
          if c_stability country < 10 \<and> c_power country < 10 then decisions
          else (case callWithRetry (service (a_id a)) 3 of
                  Inr decision \<Rightarrow>
                    (case cr_error decision of
                       Some e \<Rightarrow> decisions @ [fallbackDecision a]
                     | None \<Rightarrow> decisions @ [agentDecision a decision])
                | Inl error \<Rightarrow> decisions))"

definition collectDecisions ::
  "(string \<Rightarrow> nat \<Rightarrow> callResult) \<Rightarrow> agent list \<Rightarrow> worldState \<Rightarrow> decision list" where
  "collectDecisions service clients ws = foldl (collectStep service ws) [] clients"

text \<open>A faction whose decision is asked for: a leader of a country of the state that has not collapsed.\<close>

definition eligible :: "worldState \<Rightarrow> agent \<Rightarrow> bool" where
  "eligible ws a \<longleftrightarrow>
     a_role a = ''LEADER'' \<and>
     (case findCountryOpt (a_countryId a) (w_countries ws) of
        None \<Rightarrow> False
      | Some country \<Rightarrow> \<not> (c_stability country < 10 \<and> c_power country < 10))"

section \<open>Concrete states for the instances below\<close>

text \<open>
  Builders for countries, states, events, decisions and resolutions with fixed values in
  the fields that an instance does not look at, and the states the instances use.
\<close>

definition mkCountry :: "string \<Rightarrow> real \<Rightarrow> real \<Rightarrow> country" where
  "mkCountry i p s =
     \<lparr>c_id = i, c_name = i, c_ideology = ''none'', c_power = p, c_stability = s,
      c_technology = 50, c_population = 1000, c_resources = 50, c_alliances = [],
      c_tensions = Map.empty, c_history = [], c_collapsing = False\<rparr>"

definition noDeltas :: deltas where
  "noDeltas = \<lparr>d_power = None, d_stability = None, d_technology = None,
     d_resources = None, d_population = None\<rparr>"

definition mkWorld :: "int \<Rightarrow> country list \<Rightarrow> event list \<Rightarrow> worldState" where
  "mkWorld y cs evs = \<lparr>w_tick = y, w_year = y, w_countries = cs, w_globalEvents = evs, w_status = ''RUNNING''\<rparr>"

definition collapsedWorld :: worldState where
  "collapsedWorld = mkWorld 5 [mkCountry ''aurora'' 10 3, mkCountry ''borealis'' 60 70] []"

definition bigDeltas :: deltas where
  "bigDeltas = \<lparr>d_power = Some 500, d_stability = Some (- 500), d_technology = Some 70,
     d_resources = Some (- 70), d_population = Some (- 5000)\<rparr>"

definition twoCountries :: "country list" where
  "twoCountries = [mkCountry ''aurora'' 40 50, (mkCountry ''borealis'' 60 70)\<lparr>c_tensions := [''aurora'' \<mapsto> - 95]\<rparr>]"

definition mkEvent :: "string \<Rightarrow> real option \<Rightarrow> event" where
  "mkEvent ty si =
     \<lparr>e_tick = 0, e_year = 0, e_type = TypeName ty, e_actors = [],
      e_description = ''something happened'',
      e_impact = [], e_success = True, e_stabilityIndex = si\<rparr>"

definition tenEntries :: "string list" where
  "tenEntries = [''e0'', ''e1'', ''e2'', ''e3'', ''e4'', ''e5'', ''e6'', ''e7'', ''e8'', ''e9'']"

definition fullWorld :: worldState where
  "fullWorld = mkWorld 7 [(mkCountry ''aurora'' 40 50)\<lparr>c_history := tenEntries\<rparr>]
     (replicate 100 (mkEvent ''WAR'' None))"

definition mkDecision :: "string \<Rightarrow> string \<Rightarrow> string \<Rightarrow> string option \<Rightarrow> decision" where
  "mkDecision act spec actor target =
     \<lparr>dc_agentId = ''leader_0'', dc_actorId = Some actor, dc_apiKey = Some ''key'',
      dc_action = act, dc_specificAction = spec, dc_target = target,
      dc_details = ''details'', dc_reasoning = ''reasoning'',
      dc_expectedOutcome = ''outcome'', dc_risks = ''risks''\<rparr>"

definition mkResolution :: "bool \<Rightarrow> resolution" where
  "mkResolution ok =
     \<lparr>r_success = ok, r_successLevel = ''level'', r_changes = [], r_description = ''resolved'',
      r_newTensions = []\<rparr>"

definition alliedWorld :: worldState where
  "alliedWorld = mkWorld 3
     [(mkCountry ''aurora'' 40 50)\<lparr>c_alliances := [''borealis'']\<rparr>,
      (mkCountry ''borealis'' 60 70)\<lparr>c_alliances := [''aurora'']\<rparr>] []"

definition ruinedWorld :: "int \<Rightarrow> worldState" where
  "ruinedWorld y = mkWorld y [mkCountry ''aurora'' 10 10, mkCountry ''borealis'' 20 10] []"

definition hegemonWorld :: worldState where
  "hegemonWorld = mkWorld 12
     [mkCountry ''aurora'' 80 90, mkCountry ''borealis'' 40 50, mkCountry ''cygnus'' 40 50] []"

definition calmWorld :: "event list \<Rightarrow> worldState" where
  "calmWorld evs = mkWorld 25 [mkCountry ''aurora'' 40 50, mkCountry ''borealis'' 45 60] evs"

definition summaryThenWar :: "event list" where
  "summaryThenWar = replicate 20 (mkEvent ''TICK_SUMMARY'' (Some 96)) @ [mkEvent ''WAR'' None]"

definition failResult :: "string \<Rightarrow> bool \<Rightarrow> callResult" where
  "failResult e retry =
     \<lparr>cr_error = Some e, cr_shouldRetry = retry, cr_agentId = None, cr_actorId = None,
      cr_apiKey = None, cr_action = [], cr_specificAction = [],
      cr_target = None, cr_details = [], cr_reasoning = [], cr_expectedOutcome = [],
      cr_risks = []\<rparr>"

definition okResult :: callResult where
  "okResult =
     \<lparr>cr_error = None, cr_shouldRetry = False, cr_agentId = None, cr_actorId = None,
      cr_apiKey = None, cr_action = ''DIPLOMACY'',
      cr_specificAction = ''form_alliance'', cr_target = Some ''aurora'',
      cr_details = ''details'', cr_reasoning = ''reasoning'', cr_expectedOutcome = ''outcome'',
      cr_risks = ''risks''\<rparr>"

definition leader :: "string \<Rightarrow> string \<Rightarrow> agent" where
  "leader i k = \<lparr>a_id = i, a_role = ''LEADER'', a_apiKey = ''key'', a_countryId = Some k\<rparr>"

text \<open>
  A service that fails for \<open>leader_0\<close> with an error that is not retried, fails for
  \<open>leader_2\<close> with the rate limit at every attempt, and answers \<open>leader_1\<close>.
\<close>

definition failingService :: "string \<Rightarrow> nat \<Rightarrow> callResult" where
  "failingService i n =
     (if i = ''leader_0'' then failResult ''network down'' False
      else if i = ''leader_2'' then failResult ''RATE_LIMIT'' True
      else okResult)"

definition threeFactions :: worldState where
  "threeFactions = mkWorld 25
     [mkCountry ''aurora'' 40 50, mkCountry ''borealis'' 45 60, mkCountry ''cygnus'' 30 40] []"

definition tenseWorld :: worldState where
  "tenseWorld = mkWorld 5 twoCountries []"

definition inheritedInput :: "decision list" where
  "inheritedInput =
     [mkDecision ''INTERNAL'' ''stabilize'' ''aurora'' None,
      mkDecision ''constructor'' ''stabilize'' ''borealis'' None,
      mkDecision ''MILITARY'' ''declare_war'' ''cygnus'' (Some ''aurora'')]"

section \<open>Properties of the state mutation\<close>

subsection \<open>The collapse ceiling of \<open>applyChanges\<close>\<close>

lemma find_update_first_same:
  assumes "\<And>x. p (f x) = p x"
  shows "find p (update_first p f xs) = map_option f (find p xs)"
  using assms by (induction xs) auto

lemma find_update_first_other:
  assumes "\<And>x. q x \<Longrightarrow> \<not> p x" and "\<And>x. p (f x) = p x"
  shows "find p (update_first q f xs) = find p xs"
  using assms by (induction xs) auto

lemmas applyDeltas_steps =
  addPower_def addStability_def addTechnology_def addResources_def addPopulation_def
  checkCritical_def absoluteCollapse_def

lemma step_ids [simp]:
  "c_id (addPower d c) = c_id c" "c_id (addStability d c) = c_id c"
  "c_id (addTechnology d c) = c_id c" "c_id (addResources d c) = c_id c"
  "c_id (addPopulation d c) = c_id c" "c_id (checkCritical c) = c_id c"
  "c_id (absoluteCollapse c) = c_id c"
  by (simp_all add: applyDeltas_steps split: option.splits)

lemma applyDeltas_id [simp]: "c_id (applyDeltas d c) = c_id c"
  by (simp add: applyDeltas_def)

lemma absoluteCollapse_ceiling:
  "c_stability (absoluteCollapse c) < 5 \<Longrightarrow> c_power (absoluteCollapse c) \<le> 20"
  by (simp add: absoluteCollapse_def split: if_splits)

lemma applyDeltas_ceiling:
  "c_stability (applyDeltas d c) < 5 \<Longrightarrow> c_power (applyDeltas d c) \<le> 20"
  unfolding applyDeltas_def by (rule absoluteCollapse_ceiling)

lemma findCountry_applyChangesStep_same:
  "findCountry k (applyChangesStep cs (k, d)) = map_option (applyDeltas d) (findCountry k cs)"
  by (simp add: findCountry_def applyChangesStep_def find_update_first_same)

lemma findCountry_applyChangesStep_other:
  "k \<noteq> k' \<Longrightarrow> findCountry k (applyChangesStep cs (k', d)) = findCountry k cs"
  unfolding findCountry_def applyChangesStep_def fst_conv snd_conv
  by (rule find_update_first_other) auto

lemma applyChanges_fold_ceiling:
  "k \<in> fst ` set changes \<Longrightarrow> findCountry k (foldl applyChangesStep cs changes) = Some c
     \<Longrightarrow> c_stability c < 5 \<Longrightarrow> c_power c \<le> 20"
proof (induction changes arbitrary: c rule: rev_induct)
  case Nil
  then show ?case by simp
next
  case (snoc kd changes)
  obtain k' d where kd: "kd = (k', d)" by (cases kd)
  show ?case
  proof (cases "k' = k")
    case True
    with snoc.prems kd obtain c0 where "c = applyDeltas d c0"
      by (auto simp: findCountry_applyChangesStep_same)
    with snoc.prems show ?thesis by (simp add: applyDeltas_ceiling)
  next
    case False
    with snoc.prems kd have "k \<in> fst ` set changes"
      and "findCountry k (foldl applyChangesStep cs changes) = Some c"
      by (auto simp: findCountry_applyChangesStep_other)
    with snoc.IH snoc.prems show ?thesis by blast
  qed
qed

lemma power_addPower:
  "c_power (addPower d c) = (case d_power d of None \<Rightarrow> c_power c | Some v \<Rightarrow> clampValue (c_power c + v) 0 100)"
  by (simp add: addPower_def split: option.splits)

lemma power_later_steps [simp]:
  "c_power (addStability d c) = c_power c" "c_power (addTechnology d c) = c_power c"
  "c_power (addResources d c) = c_power c" "c_power (addPopulation d c) = c_power c"
  "c_power (checkCritical c) = c_power c"
  by (simp_all add: applyDeltas_steps split: option.splits)

lemma stability_absoluteCollapse [simp]: "c_stability (absoluteCollapse c) = c_stability c"
  by (simp add: absoluteCollapse_def)

lemma power_applyDeltas:
  "c_power (applyDeltas d c) =
     (if c_stability (applyDeltas d c) < 5 then min (c_power (addPower d c)) 20 else c_power (addPower d c))"
  by (simp add: applyDeltas_def) (simp add: absoluteCollapse_def)

text \<open>
  Claim C3. After \<open>applyChanges\<close>, every country addressed by the changes whose
  stability is below 5 has power at most 20. The ceiling is applied to the power already
  clamped to [0,100] and replaces it by its minimum with 20, so it never raises it. A
  country with stability 3 and power 10 that receives a power delta of +50 ends with
  power exactly 20.
\<close>

theorem applyChanges_collapse_ceiling:
  "(\<forall>k c. k \<in> fst ` set changes \<longrightarrow>
       findCountry k (w_countries (applyChanges ws changes)) = Some c \<longrightarrow>
       c_stability c < 5 \<longrightarrow> c_power c \<le> 20) \<and>
   c_power (applyDeltas d c0) =
     (let clamped = (case d_power d of None \<Rightarrow> c_power c0
                     | Some v \<Rightarrow> clampValue (c_power c0 + v) 0 100)
      in if c_stability (applyDeltas d c0) < 5 then min clamped 20 else clamped) \<and>
   (c_stability c1 = 3 \<and> c_power c1 = 10 \<and> d_power d1 = Some 50 \<and> d_stability d1 = None \<longrightarrow>
      c_power (applyDeltas d1 c1) = 20)"
proof (intro conjI allI impI)
  fix k c
  assume "k \<in> fst ` set changes"
    and "findCountry k (w_countries (applyChanges ws changes)) = Some c"
    and "c_stability c < 5"
  then show "c_power c \<le> 20"
    using applyChanges_fold_ceiling [of k changes "w_countries ws" c]
    by (simp add: applyChanges_def)
next
  show "c_power (applyDeltas d c0) =
     (let clamped = (case d_power d of None \<Rightarrow> c_power c0
                     | Some v \<Rightarrow> clampValue (c_power c0 + v) 0 100)
      in if c_stability (applyDeltas d c0) < 5 then min clamped 20 else clamped)"
    by (simp add: power_applyDeltas power_addPower Let_def)
next
  assume a: "c_stability c1 = 3 \<and> c_power c1 = 10 \<and> d_power d1 = Some 50 \<and> d_stability d1 = None"
  then have "c_stability (applyDeltas d1 c1) = 3"
    by (simp add: applyDeltas_def applyDeltas_steps split: option.splits)
  with a show "c_power (applyDeltas d1 c1) = 20"
    by (simp add: power_applyDeltas power_addPower clampValue_def)
qed

theorem applyChanges_collapse_ceiling_witness:
  "''aurora'' \<in> fst ` set [(''aurora'', noDeltas\<lparr>d_power := Some 50\<rparr>)] \<and>
   map c_power (w_countries (applyChanges collapsedWorld [(''aurora'', noDeltas\<lparr>d_power := Some 50\<rparr>)])) = [20, 60] \<and>
   map c_stability (w_countries (applyChanges collapsedWorld [(''aurora'', noDeltas\<lparr>d_power := Some 50\<rparr>)])) = [3, 70]"
  using applyChanges_collapse_ceiling [of "[(''aurora'', noDeltas\<lparr>d_power := Some 50\<rparr>)]" collapsedWorld
      "noDeltas\<lparr>d_power := Some 50\<rparr>" "mkCountry ''aurora'' 10 3" "mkCountry ''aurora'' 10 3" "noDeltas\<lparr>d_power := Some 50\<rparr>"]
  by (simp add: applyChanges_def applyChangesStep_def collapsedWorld_def mkWorld_def mkCountry_def noDeltas_def
      applyDeltas_def applyDeltas_steps clampValue_def)

subsection \<open>The ranges of the stats\<close>

lemma clampValue_range: "mn \<le> mx \<Longrightarrow> mn \<le> clampValue v mn mx \<and> clampValue v mn mx \<le> mx"
  by (simp add: clampValue_def)

lemma statsInRange_addPower: "statsInRange c \<Longrightarrow> statsInRange (addPower d c)"
  by (simp add: statsInRange_def addPower_def clampValue_def split: option.splits)

lemma statsInRange_addStability: "statsInRange c \<Longrightarrow> statsInRange (addStability d c)"
  by (simp add: statsInRange_def addStability_def clampValue_def split: option.splits)

lemma statsInRange_addTechnology: "statsInRange c \<Longrightarrow> statsInRange (addTechnology d c)"
  by (simp add: statsInRange_def addTechnology_def clampValue_def split: option.splits)

lemma statsInRange_addResources: "statsInRange c \<Longrightarrow> statsInRange (addResources d c)"
  by (simp add: statsInRange_def addResources_def clampValue_def split: option.splits)

lemma statsInRange_addPopulation: "statsInRange c \<Longrightarrow> statsInRange (addPopulation d c)"
  by (simp add: statsInRange_def addPopulation_def split: option.splits)

lemma statsInRange_checkCritical: "statsInRange c \<Longrightarrow> statsInRange (checkCritical c)"
  by (simp add: statsInRange_def checkCritical_def)

lemma statsInRange_absoluteCollapse: "statsInRange c \<Longrightarrow> statsInRange (absoluteCollapse c)"
  by (auto simp add: statsInRange_def absoluteCollapse_def)

lemma statsInRange_applyDeltas: "statsInRange c \<Longrightarrow> statsInRange (applyDeltas d c)"
  unfolding applyDeltas_def
  by (intro statsInRange_absoluteCollapse statsInRange_checkCritical statsInRange_addPopulation
      statsInRange_addResources statsInRange_addTechnology statsInRange_addStability
      statsInRange_addPower)

lemma list_all_update_first:
  "list_all q xs \<Longrightarrow> (\<And>x. q x \<Longrightarrow> q (f x)) \<Longrightarrow> list_all q (update_first p f xs)"
  by (induction xs) auto

lemma statsInRange_applyChangesStep:
  "list_all statsInRange cs \<Longrightarrow> list_all statsInRange (applyChangesStep cs kd)"
  unfolding applyChangesStep_def
  by (rule list_all_update_first) (simp_all add: statsInRange_applyDeltas)

lemma statsInRange_fold:
  "list_all statsInRange cs \<Longrightarrow> list_all statsInRange (foldl applyChangesStep cs changes)"
  by (induction changes arbitrary: cs) (simp_all add: statsInRange_applyChangesStep)

lemma worldInRange_applyChanges: "worldInRange ws \<Longrightarrow> worldInRange (applyChanges ws changes)"
  by (simp add: worldInRange_def applyChanges_def statsInRange_fold)

lemma worldInRange_sequence:
  "worldInRange ws \<Longrightarrow> worldInRange (foldl applyChanges ws changesList)"
  by (induction changesList arbitrary: ws) (simp_all add: worldInRange_applyChanges)

text \<open>
  Claim C4. If every country of a state has power, stability, technology and resources
  in [0,100] and a population that is not negative, then so has every country of the
  state returned by \<open>applyChanges\<close>, for every mapping of deltas, and of the state
  reached by applying any sequence of such mappings one after the other.
\<close>

theorem applyChanges_keeps_stats_in_range:
  assumes "worldInRange ws"
  shows "worldInRange (applyChanges ws changes) \<and>
     worldInRange (foldl applyChanges ws changesList) \<and>
     (\<forall>c \<in> set (w_countries (foldl applyChanges ws changesList)).
           0 \<le> c_power c \<and> c_power c \<le> 100 \<and> 0 \<le> c_stability c \<and> c_stability c \<le> 100 \<and>
           0 \<le> c_technology c \<and> c_technology c \<le> 100 \<and>
           0 \<le> c_resources c \<and> c_resources c \<le> 100 \<and> 0 \<le> c_population c)"
proof -
  have one: "worldInRange (applyChanges ws changes)"
    using assms by (rule worldInRange_applyChanges)
  have seq: "worldInRange (foldl applyChanges ws changesList)"
    using assms by (rule worldInRange_sequence)
  then have "\<forall>c \<in> set (w_countries (foldl applyChanges ws changesList)).
           0 \<le> c_power c \<and> c_power c \<le> 100 \<and> 0 \<le> c_stability c \<and> c_stability c \<le> 100 \<and>
           0 \<le> c_technology c \<and> c_technology c \<le> 100 \<and>
           0 \<le> c_resources c \<and> c_resources c \<le> 100 \<and> 0 \<le> c_population c"
    unfolding worldInRange_def list_all_iff statsInRange_def by blast
  with one seq show ?thesis by blast
qed

theorem applyChanges_keeps_stats_in_range_witness:
  "worldInRange collapsedWorld \<and>
   worldInRange (foldl applyChanges collapsedWorld
      [[(''borealis'', bigDeltas)], [(''aurora'', bigDeltas), (''nowhere'', bigDeltas)]]) \<and>
   map c_power (w_countries (applyChanges collapsedWorld [(''borealis'', bigDeltas)])) = [10, 20] \<and>
   map c_population (w_countries (applyChanges collapsedWorld [(''borealis'', bigDeltas)])) = [1000, 0]"
proof -
  have h: "worldInRange collapsedWorld"
    by (simp add: worldInRange_def statsInRange_def collapsedWorld_def mkWorld_def mkCountry_def)
  have "map c_power (w_countries (applyChanges collapsedWorld [(''borealis'', bigDeltas)])) = [10, 20]"
    by (simp add: applyChanges_def applyChangesStep_def collapsedWorld_def mkWorld_def mkCountry_def
        bigDeltas_def applyDeltas_def applyDeltas_steps clampValue_def)
  moreover have "map c_population (w_countries (applyChanges collapsedWorld [(''borealis'', bigDeltas)])) = [1000, 0]"
    by (simp add: applyChanges_def applyChangesStep_def collapsedWorld_def mkWorld_def mkCountry_def
        bigDeltas_def applyDeltas_def applyDeltas_steps clampValue_def)
  ultimately show ?thesis
    using h applyChanges_keeps_stats_in_range [OF h, of "[(''borealis'', bigDeltas)]"
        "[[(''borealis'', bigDeltas)], [(''aurora'', bigDeltas), (''nowhere'', bigDeltas)]]"]
    by simp
qed

subsection \<open>Reciprocal tensions\<close>

lemma addTension_id [simp]: "c_id (addTension k v c) = c_id c"
  by (simp add: addTension_def)

lemma findCountry_update_same:
  "(\<And>c. c_id (f c) = c_id c) \<Longrightarrow>
   findCountry k (update_first (\<lambda>c. c_id c = k) f cs) = map_option f (findCountry k cs)"
  unfolding findCountry_def by (rule find_update_first_same) simp

lemma findCountry_update_other:
  "(\<And>c. c_id (f c) = c_id c) \<Longrightarrow> k \<noteq> k' \<Longrightarrow>
   findCountry k (update_first (\<lambda>c. c_id c = k') f cs) = findCountry k cs"
  unfolding findCountry_def by (rule find_update_first_other) auto

lemma tensionOf_addTension_same:
  "tensionOf (addTension k v c) k = clampValue (tensionOf c k + v) (- 100) 100"
  by (simp add: tensionOf_def addTension_def)

lemma tensionOf_addTension_other:
  "k \<noteq> k' \<Longrightarrow> tensionOf (addTension k' v c) k = tensionOf c k"
  by (simp add: tensionOf_def addTension_def)

lemma clampValue_bounds: "- 100 \<le> clampValue v (- 100) 100 \<and> clampValue v (- 100) 100 \<le> 100"
  by (simp add: clampValue_def)

lemma applyTensionEntry_found:
  assumes "findCountry a cs = Some ca" and "findCountry t cs = Some ct" and "a \<noteq> t"
  shows "findCountry a (applyTensionEntry a cs (t, d)) = Some (addTension t d ca)"
    and "findCountry t (applyTensionEntry a cs (t, d)) = Some (addTension a (d * 0.7) ct)"
proof -
  let ?cs1 = "update_first (\<lambda>c. c_id c = a) (addTension t d) cs"
  have a1: "findCountry a ?cs1 = Some (addTension t d ca)"
    using assms(1) by (simp add: findCountry_update_same)
  have t1: "findCountry t ?cs1 = Some ct"
    using assms(2,3) by (simp add: findCountry_update_other)
  have res: "applyTensionEntry a cs (t, d) =
      update_first (\<lambda>c. c_id c = t) (addTension a (d * 0.7)) ?cs1"
    using t1 by (simp add: applyTensionEntry_def Let_def)
  show "findCountry a (applyTensionEntry a cs (t, d)) = Some (addTension t d ca)"
    unfolding res using a1 assms(3) by (simp add: findCountry_update_other)
  show "findCountry t (applyTensionEntry a cs (t, d)) = Some (addTension a (d * 0.7) ct)"
    unfolding res using t1 by (simp add: findCountry_update_same)
qed

lemma applyTensionChangesStep_none:
  "findCountry a cs = None \<Longrightarrow> applyTensionChangesStep cs (a, tds) = cs"
  by (simp add: applyTensionChangesStep_def)

lemma applyTensionChangesStep_snoc:
  assumes "findCountry a (applyTensionChangesStep cs (a, tds)) = Some ca"
  shows "applyTensionChangesStep cs (a, tds @ [td]) =
     applyTensionEntry a (applyTensionChangesStep cs (a, tds)) td"
proof (cases "findCountry a cs")
  case None
  with assms show ?thesis by (simp add: applyTensionChangesStep_none)
next
  case (Some c)
  then show ?thesis by (simp add: applyTensionChangesStep_def)
qed

lemma countries_applyTensionChanges_snoc:
  "w_countries (applyTensionChanges ws (tcs @ [kt])) =
     applyTensionChangesStep (w_countries (applyTensionChanges ws tcs)) kt"
  by (simp add: applyTensionChanges_def)

text \<open>
  The state after the entry \<open>(a, t, d)\<close> of a mapping, in terms of the state just
  before it: \<open>earlier\<close> are the actors before \<open>a\<close> in the mapping, \<open>tds\<close> the
  targets of \<open>a\<close> before \<open>t\<close>.
\<close>

lemma applyTensionChanges_entry:
  assumes "findCountry a (w_countries (applyTensionChanges ws (earlier @ [(a, tds)]))) = Some ca"
  shows "w_countries (applyTensionChanges ws (earlier @ [(a, tds @ [(t, d)])])) =
     applyTensionEntry a (w_countries (applyTensionChanges ws (earlier @ [(a, tds)]))) (t, d)"
  using assms unfolding countries_applyTensionChanges_snoc
  by (rule applyTensionChangesStep_snoc)

text \<open>
  Claim C5. Take any mapping of tension changes and any of its deltas, \<open>d\<close> from
  actor \<open>a\<close> to target \<open>t\<close>: \<open>earlier\<close> are the actors that come before \<open>a\<close>,
  \<open>tds\<close> the targets of \<open>a\<close> that come before \<open>t\<close>. If, in the state that
  \<open>applyTensionChanges\<close> has reached just before this delta, actor and target are found
  and are distinct, then in the state it reaches with the delta the tension of the actor
  towards the target is the one before plus d, clamped to [-100,100], and the tension of
  the target towards the actor is the one before plus 0.7 d, clamped to [-100,100]; both
  lie in [-100,100].
\<close>

theorem applyTensionChanges_reciprocal:
  assumes "findCountry a (w_countries (applyTensionChanges ws (earlier @ [(a, tds)]))) = Some ca"
    and "findCountry t (w_countries (applyTensionChanges ws (earlier @ [(a, tds)]))) = Some ct"
    and "a \<noteq> t"
  shows "\<exists>ca' ct'.
     findCountry a (w_countries (applyTensionChanges ws (earlier @ [(a, tds @ [(t, d)])]))) = Some ca' \<and>
     findCountry t (w_countries (applyTensionChanges ws (earlier @ [(a, tds @ [(t, d)])]))) = Some ct' \<and>
     tensionOf ca' t = clampValue (tensionOf ca t + d) (- 100) 100 \<and>
     tensionOf ct' a = clampValue (tensionOf ct a + 0.7 * d) (- 100) 100 \<and>
     - 100 \<le> tensionOf ca' t \<and> tensionOf ca' t \<le> 100 \<and>
     - 100 \<le> tensionOf ct' a \<and> tensionOf ct' a \<le> 100"
proof -
  let ?before = "w_countries (applyTensionChanges ws (earlier @ [(a, tds)]))"
  let ?after = "w_countries (applyTensionChanges ws (earlier @ [(a, tds @ [(t, d)])]))"
  have step: "?after = applyTensionEntry a ?before (t, d)"
    using assms(1) by (rule applyTensionChanges_entry)
  have fa: "findCountry a ?after = Some (addTension t d ca)"
    unfolding step using assms by (rule applyTensionEntry_found)
  have ft: "findCountry t ?after = Some (addTension a (d * 0.7) ct)"
    unfolding step using assms by (rule applyTensionEntry_found)
  have va: "tensionOf (addTension t d ca) t = clampValue (tensionOf ca t + d) (- 100) 100"
    by (rule tensionOf_addTension_same)
  have vt: "tensionOf (addTension a (d * 0.7) ct) a = clampValue (tensionOf ct a + 0.7 * d) (- 100) 100"
    by (simp add: tensionOf_addTension_same mult.commute)
  have "- 100 \<le> tensionOf (addTension t d ca) t" "tensionOf (addTension t d ca) t \<le> 100"
    "- 100 \<le> tensionOf (addTension a (d * 0.7) ct) a" "tensionOf (addTension a (d * 0.7) ct) a \<le> 100"
    by (simp_all add: tensionOf_addTension_same clampValue_bounds)
  with fa ft va vt show ?thesis by blast
qed

theorem applyTensionChanges_reciprocal_witness:
  "findCountry ''aurora'' (w_countries (applyTensionChanges tenseWorld ([] @ [(''aurora'', [])]))) =
     Some (mkCountry ''aurora'' 40 50) \<and>
   findCountry ''borealis'' (w_countries (applyTensionChanges tenseWorld ([] @ [(''aurora'', [])]))) =
     Some ((mkCountry ''borealis'' 60 70)\<lparr>c_tensions := [''aurora'' \<mapsto> - 95]\<rparr>) \<and>
   ''aurora'' \<noteq> ''borealis'' \<and>
   map (\<lambda>c. tensionOf c ''borealis'')
     (w_countries (applyTensionChanges tenseWorld [(''aurora'', [(''borealis'', - 10)])])) = [- 10, 0] \<and>
   map (\<lambda>c. tensionOf c ''aurora'')
     (w_countries (applyTensionChanges tenseWorld [(''aurora'', [(''borealis'', - 10)])])) = [0, - 100] \<and>
   (\<exists>ca' ct'.
     findCountry ''aurora''
       (w_countries (applyTensionChanges tenseWorld [(''aurora'', [(''borealis'', - 10)])])) = Some ca' \<and>
     findCountry ''borealis''
       (w_countries (applyTensionChanges tenseWorld [(''aurora'', [(''borealis'', - 10)])])) = Some ct' \<and>
     tensionOf ca' ''borealis'' = - 10 \<and> tensionOf ct' ''aurora'' = - 100)"
proof -
  have b: "w_countries (applyTensionChanges tenseWorld ([] @ [(''aurora'', [])])) = twoCountries"
    by (simp add: applyTensionChanges_def applyTensionChangesStep_def tenseWorld_def mkWorld_def
        split: option.splits)
  have a: "findCountry ''aurora'' (w_countries (applyTensionChanges tenseWorld ([] @ [(''aurora'', [])]))) =
     Some (mkCountry ''aurora'' 40 50)"
    unfolding b by (simp add: findCountry_def twoCountries_def mkCountry_def)
  have t: "findCountry ''borealis'' (w_countries (applyTensionChanges tenseWorld ([] @ [(''aurora'', [])]))) =
     Some ((mkCountry ''borealis'' 60 70)\<lparr>c_tensions := [''aurora'' \<mapsto> - 95]\<rparr>)"
    unfolding b by (simp add: findCountry_def twoCountries_def mkCountry_def)
  have ne: "''aurora'' \<noteq> ''borealis''" by simp
  have v1: "map (\<lambda>c. tensionOf c ''borealis'')
     (w_countries (applyTensionChanges tenseWorld [(''aurora'', [(''borealis'', - 10)])])) = [- 10, 0]"
    by (simp add: applyTensionChanges_def applyTensionChangesStep_def tenseWorld_def mkWorld_def
        applyTensionEntry_def findCountry_def twoCountries_def mkCountry_def Let_def
        addTension_def tensionOf_def clampValue_def)
  have v2: "map (\<lambda>c. tensionOf c ''aurora'')
     (w_countries (applyTensionChanges tenseWorld [(''aurora'', [(''borealis'', - 10)])])) = [0, - 100]"
    by (simp add: applyTensionChanges_def applyTensionChangesStep_def tenseWorld_def mkWorld_def
        applyTensionEntry_def findCountry_def twoCountries_def mkCountry_def Let_def
        addTension_def tensionOf_def clampValue_def)
  have z: "tensionOf (mkCountry ''aurora'' 40 50) ''borealis'' = 0"
    "tensionOf ((mkCountry ''borealis'' 60 70)\<lparr>c_tensions := [''aurora'' \<mapsto> - 95]\<rparr>) ''aurora'' = - 95"
    by (simp_all add: tensionOf_def mkCountry_def)
  have "\<exists>ca' ct'.
     findCountry ''aurora''
       (w_countries (applyTensionChanges tenseWorld [(''aurora'', [(''borealis'', - 10)])])) = Some ca' \<and>
     findCountry ''borealis''
       (w_countries (applyTensionChanges tenseWorld [(''aurora'', [(''borealis'', - 10)])])) = Some ct' \<and>
     tensionOf ca' ''borealis'' = - 10 \<and> tensionOf ct' ''aurora'' = - 100"
    using applyTensionChanges_reciprocal [OF a t ne, of "- 10"] z
    by (auto simp add: clampValue_def)
  with a t ne v1 v2 show ?thesis by (intro conjI)
qed

text \<open>
  Claim C10. When the target of a delta is the actor itself, \<open>applyTensionChanges\<close>
  writes the one cell \<open>tensions[actor]\<close> of that country twice: from the state just
  before the delta, the result is the value before plus d, clamped, plus 0.7 d, clamped
  again. When the first write does not clamp, the value before the last clamp is the
  value before plus 1.7 d.
\<close>

theorem applyTensionChanges_self:
  assumes "findCountry a (w_countries (applyTensionChanges ws (earlier @ [(a, tds)]))) = Some ca"
  shows "\<exists>ca'.
     findCountry a (w_countries (applyTensionChanges ws (earlier @ [(a, tds @ [(a, d)])]))) = Some ca' \<and>
     tensionOf ca' a =
       clampValue (clampValue (tensionOf ca a + d) (- 100) 100 + 0.7 * d) (- 100) 100 \<and>
     (- 100 \<le> tensionOf ca a + d \<and> tensionOf ca a + d \<le> 100 \<longrightarrow>
        tensionOf ca' a = clampValue (tensionOf ca a + 1.7 * d) (- 100) 100)"
proof -
  let ?before = "w_countries (applyTensionChanges ws (earlier @ [(a, tds)]))"
  let ?after = "w_countries (applyTensionChanges ws (earlier @ [(a, tds @ [(a, d)])]))"
  let ?cs1 = "update_first (\<lambda>c. c_id c = a) (addTension a d) ?before"
  have step: "?after = applyTensionEntry a ?before (a, d)"
    using assms by (rule applyTensionChanges_entry)
  have a1: "findCountry a ?cs1 = Some (addTension a d ca)"
    using assms by (simp add: findCountry_update_same)
  then have res: "applyTensionEntry a ?before (a, d) =
      update_first (\<lambda>c. c_id c = a) (addTension a (d * 0.7)) ?cs1"
    by (simp add: applyTensionEntry_def Let_def)
  have "findCountry a (update_first (\<lambda>c. c_id c = a) (addTension a (d * 0.7)) ?cs1) =
      map_option (addTension a (d * 0.7)) (findCountry a ?cs1)"
    by (rule findCountry_update_same) simp
  with a1 res step have f: "findCountry a ?after = Some (addTension a (d * 0.7) (addTension a d ca))"
    by simp
  have v: "tensionOf (addTension a (d * 0.7) (addTension a d ca)) a =
      clampValue (clampValue (tensionOf ca a + d) (- 100) 100 + 0.7 * d) (- 100) 100"
    by (simp add: tensionOf_addTension_same mult.commute)
  have "- 100 \<le> tensionOf ca a + d \<and> tensionOf ca a + d \<le> 100 \<longrightarrow>
      clampValue (tensionOf ca a + d) (- 100) 100 + 0.7 * d = tensionOf ca a + 1.7 * d"
    by (simp add: clampValue_def)
  with f v show ?thesis by auto
qed

theorem applyTensionChanges_self_witness:
  "findCountry ''aurora'' (w_countries (applyTensionChanges tenseWorld ([] @ [(''aurora'', [])]))) =
     Some (mkCountry ''aurora'' 40 50) \<and>
   - 100 \<le> tensionOf (mkCountry ''aurora'' 40 50) ''aurora'' + 10 \<and>
   tensionOf (mkCountry ''aurora'' 40 50) ''aurora'' + 10 \<le> 100 \<and>
   map (\<lambda>c. tensionOf c ''aurora'')
     (w_countries (applyTensionChanges tenseWorld [(''aurora'', [(''aurora'', 10)])])) = [17, - 95] \<and>
   (\<exists>ca'. findCountry ''aurora''
       (w_countries (applyTensionChanges tenseWorld [(''aurora'', [(''aurora'', 10)])])) = Some ca' \<and>
      tensionOf ca' ''aurora'' = 17)"
proof -
  have b: "w_countries (applyTensionChanges tenseWorld ([] @ [(''aurora'', [])])) = twoCountries"
    by (simp add: applyTensionChanges_def applyTensionChangesStep_def tenseWorld_def mkWorld_def
        split: option.splits)
  have a: "findCountry ''aurora'' (w_countries (applyTensionChanges tenseWorld ([] @ [(''aurora'', [])]))) =
     Some (mkCountry ''aurora'' 40 50)"
    unfolding b by (simp add: findCountry_def twoCountries_def mkCountry_def)
  have z: "tensionOf (mkCountry ''aurora'' 40 50) ''aurora'' = 0"
    by (simp add: tensionOf_def mkCountry_def)
  have v: "map (\<lambda>c. tensionOf c ''aurora'')
     (w_countries (applyTensionChanges tenseWorld [(''aurora'', [(''aurora'', 10)])])) = [17, - 95]"
    by (simp add: applyTensionChanges_def applyTensionChangesStep_def tenseWorld_def mkWorld_def
        applyTensionEntry_def findCountry_def twoCountries_def mkCountry_def Let_def
        addTension_def tensionOf_def clampValue_def)
  have "\<exists>ca'. findCountry ''aurora''
       (w_countries (applyTensionChanges tenseWorld [(''aurora'', [(''aurora'', 10)])])) = Some ca' \<and>
      tensionOf ca' ''aurora'' = 17"
    using applyTensionChanges_self [OF a, of 10] z
    by (auto simp add: clampValue_def)
  with a z v show ?thesis by simp
qed

subsection \<open>The bounded logs\<close>

lemma length_slice_last: "length (slice_last n xs) \<le> n"
  by (simp add: slice_last_def)

lemma slice_last_suffix: "take (length xs - n) xs @ slice_last n xs = xs"
  by (simp add: slice_last_def)

lemma globalEvents_addEvent:
  "w_globalEvents (addEvent ws ev) =
     slice_last 100 (w_globalEvents ws @ [ev\<lparr>e_tick := w_tick ws, e_year := w_year ws\<rparr>])"
  by (simp add: addEvent_def Let_def slice_last_def)

lemma countries_addEvent [simp]: "w_countries (addEvent ws ev) = w_countries ws"
  by (simp add: addEvent_def Let_def)

lemma history_pushHistory: "c_history (pushHistory h c) = slice_last 10 (c_history c @ [h])"
  by (simp add: pushHistory_def Let_def slice_last_def)

lemma pushHistory_id [simp]: "c_id (pushHistory h c) = c_id c"
  by (simp add: pushHistory_def Let_def)

lemma list_all_update_first_weak:
  "list_all q xs \<Longrightarrow> (\<And>x. q (f x)) \<Longrightarrow> list_all q (update_first p f xs)"
  by (induction xs) auto

lemma update_first_none: "find p xs = None \<Longrightarrow> update_first p f xs = xs"
  by (induction xs) (auto split: if_splits)

lemma logsBounded_addEvent: "logsBounded ws \<Longrightarrow> logsBounded (addEvent ws ev)"
  by (simp add: logsBounded_def globalEvents_addEvent length_slice_last)

lemma logsBounded_addCountryHistory:
  "logsBounded ws \<Longrightarrow> logsBounded (addCountryHistory ws k h)"
  unfolding logsBounded_def addCountryHistory_def
  by (simp add: list_all_update_first_weak history_pushHistory length_slice_last)

lemma findCountry_addCountryHistory:
  "findCountry k (w_countries (addCountryHistory ws k h)) =
     map_option (pushHistory h) (findCountry k (w_countries ws))"
  unfolding addCountryHistory_def findCountry_def
  by (simp add: find_update_first_same)

lemma history_steps [simp]:
  "c_history (addPower d c) = c_history c" "c_history (addStability d c) = c_history c"
  "c_history (addTechnology d c) = c_history c" "c_history (addResources d c) = c_history c"
  "c_history (addPopulation d c) = c_history c" "c_history (checkCritical c) = c_history c"
  "c_history (absoluteCollapse c) = c_history c" "c_history (addTension k v c) = c_history c"
  "c_history (formAlliance i c) = c_history c" "c_history (breakAlliance i c) = c_history c"
  by (simp_all add: applyDeltas_steps addTension_def formAlliance_def breakAlliance_def
      split: option.splits)

lemma history_applyDeltas [simp]: "c_history (applyDeltas d c) = c_history c"
  by (simp add: applyDeltas_def)

lemma historyBound_update_first:
  "list_all (\<lambda>c. length (c_history c) \<le> 10) cs \<Longrightarrow> (\<And>c. c_history (f c) = c_history c) \<Longrightarrow>
   list_all (\<lambda>c. length (c_history c) \<le> 10) (update_first p f cs)"
  by (induction cs) auto

lemma historyBound_applyChangesStep:
  "list_all (\<lambda>c. length (c_history c) \<le> 10) cs \<Longrightarrow>
   list_all (\<lambda>c. length (c_history c) \<le> 10) (applyChangesStep cs kd)"
  unfolding applyChangesStep_def by (rule historyBound_update_first) simp_all

lemma historyBound_applyChanges_fold:
  "list_all (\<lambda>c. length (c_history c) \<le> 10) cs \<Longrightarrow>
   list_all (\<lambda>c. length (c_history c) \<le> 10) (foldl applyChangesStep cs changes)"
  by (induction changes arbitrary: cs) (simp_all add: historyBound_applyChangesStep)

lemma historyBound_applyTensionEntry:
  "list_all (\<lambda>c. length (c_history c) \<le> 10) cs \<Longrightarrow>
   list_all (\<lambda>c. length (c_history c) \<le> 10) (applyTensionEntry a cs td)"
  unfolding applyTensionEntry_def Let_def
  by (auto split: option.splits intro!: historyBound_update_first)

lemma historyBound_applyTensionEntries:
  "list_all (\<lambda>c. length (c_history c) \<le> 10) cs \<Longrightarrow>
   list_all (\<lambda>c. length (c_history c) \<le> 10) (foldl (applyTensionEntry a) cs tds)"
  by (induction tds arbitrary: cs) (simp_all add: historyBound_applyTensionEntry)

lemma historyBound_applyTensionChangesStep:
  "list_all (\<lambda>c. length (c_history c) \<le> 10) cs \<Longrightarrow>
   list_all (\<lambda>c. length (c_history c) \<le> 10) (applyTensionChangesStep cs kt)"
  unfolding applyTensionChangesStep_def
  by (simp add: historyBound_applyTensionEntries split: option.splits)

lemma historyBound_applyTensionChanges_fold:
  "list_all (\<lambda>c. length (c_history c) \<le> 10) cs \<Longrightarrow>
   list_all (\<lambda>c. length (c_history c) \<le> 10) (foldl applyTensionChangesStep cs tcs)"
  by (induction tcs arbitrary: cs) (simp_all add: historyBound_applyTensionChangesStep)

lemma logsBounded_applyChanges: "logsBounded ws \<Longrightarrow> logsBounded (applyChanges ws changes)"
  by (simp add: logsBounded_def applyChanges_def historyBound_applyChanges_fold)

lemma logsBounded_applyTensionChanges:
  "logsBounded ws \<Longrightarrow> logsBounded (applyTensionChanges ws tcs)"
  by (simp add: logsBounded_def applyTensionChanges_def historyBound_applyTensionChanges_fold)

lemma logsBounded_updateAlliances:
  "logsBounded ws \<Longrightarrow> logsBounded (updateAlliances ws a b act)"
  unfolding logsBounded_def updateAlliances_def updateFirstOpt_def
  by (auto split: option.splits intro!: historyBound_update_first)

text \<open>
  Claim C9. \<open>addEvent\<close> appends the event and keeps the last 100 entries of the log;
  \<open>addCountryHistory\<close> appends the entry to the history of the country found and keeps
  its last 10 entries. What is kept is a suffix of the appended list, so only the oldest
  entries go and the order of the others is unchanged. The log has at most 100 entries
  after every \<open>addEvent\<close>, the history of the country has at most 10 after every
  \<open>addCountryHistory\<close>, and these two and the other operations that change a state
  (\<open>applyChanges\<close>, \<open>applyTensionChanges\<close>, \<open>updateAlliances\<close>) keep the
  bounds of a state that has them.
\<close>

theorem bounded_logs:
  "w_globalEvents (addEvent ws ev) =
     slice_last 100 (w_globalEvents ws @ [ev\<lparr>e_tick := w_tick ws, e_year := w_year ws\<rparr>]) \<and>
   length (w_globalEvents (addEvent ws ev)) \<le> 100 \<and>
   (\<exists>dropped. w_globalEvents ws @ [ev\<lparr>e_tick := w_tick ws, e_year := w_year ws\<rparr>] =
        dropped @ w_globalEvents (addEvent ws ev) \<and>
        length dropped = length (w_globalEvents ws) + 1 - 100) \<and>
   (findCountry k (w_countries ws) = Some c \<longrightarrow>
      (\<exists>c'. findCountry k (w_countries (addCountryHistory ws k h)) = Some c' \<and>
         c_history c' = slice_last 10 (c_history c @ [h]) \<and>
         length (c_history c') \<le> 10 \<and>
         (\<exists>dropped. c_history c @ [h] = dropped @ c_history c' \<and>
            length dropped = length (c_history c) + 1 - 10))) \<and>
   (findCountry k2 (w_countries ws) = None \<longrightarrow> addCountryHistory ws k2 h = ws) \<and>
   (logsBounded ws \<longrightarrow>
      logsBounded (addEvent ws ev) \<and> logsBounded (addCountryHistory ws k h) \<and>
      logsBounded (applyChanges ws changes) \<and> logsBounded (applyTensionChanges ws tcs) \<and>
      logsBounded (updateAlliances ws a b act))"
proof (intro conjI impI)
  let ?evs = "w_globalEvents ws @ [ev\<lparr>e_tick := w_tick ws, e_year := w_year ws\<rparr>]"
  show "w_globalEvents (addEvent ws ev) = slice_last 100 ?evs"
    by (rule globalEvents_addEvent)
  show "length (w_globalEvents (addEvent ws ev)) \<le> 100"
    by (simp add: globalEvents_addEvent length_slice_last)
  have "?evs = take (length ?evs - 100) ?evs @ w_globalEvents (addEvent ws ev)"
    by (simp only: globalEvents_addEvent slice_last_suffix)
  moreover have "length (take (length ?evs - 100) ?evs) = length (w_globalEvents ws) + 1 - 100"
    by simp
  ultimately show "\<exists>dropped. ?evs = dropped @ w_globalEvents (addEvent ws ev) \<and>
        length dropped = length (w_globalEvents ws) + 1 - 100"
    by blast
next
  assume found: "findCountry k (w_countries ws) = Some c"
  let ?hs = "c_history c @ [h]"
  have f: "findCountry k (w_countries (addCountryHistory ws k h)) = Some (pushHistory h c)"
    using found by (simp add: findCountry_addCountryHistory)
  have hist: "c_history (pushHistory h c) = slice_last 10 ?hs"
    by (rule history_pushHistory)
  have "?hs = take (length ?hs - 10) ?hs @ c_history (pushHistory h c)"
    by (simp only: hist slice_last_suffix)
  moreover have "length (take (length ?hs - 10) ?hs) = length (c_history c) + 1 - 10"
    by simp
  ultimately have "\<exists>dropped. ?hs = dropped @ c_history (pushHistory h c) \<and>
      length dropped = length (c_history c) + 1 - 10"
    by blast
  with f hist show "\<exists>c'. findCountry k (w_countries (addCountryHistory ws k h)) = Some c' \<and>
         c_history c' = slice_last 10 ?hs \<and> length (c_history c') \<le> 10 \<and>
         (\<exists>dropped. ?hs = dropped @ c_history c' \<and>
            length dropped = length (c_history c) + 1 - 10)"
    by (simp add: length_slice_last)
next
  assume "findCountry k2 (w_countries ws) = None"
  then have "update_first (\<lambda>c. c_id c = k2) (pushHistory h) (w_countries ws) = w_countries ws"
    unfolding findCountry_def by (rule update_first_none)
  then show "addCountryHistory ws k2 h = ws"
    by (simp add: addCountryHistory_def)
next
  assume "logsBounded ws"
  then show "logsBounded (addEvent ws ev)" by (rule logsBounded_addEvent)
next
  assume "logsBounded ws"
  then show "logsBounded (addCountryHistory ws k h)" by (rule logsBounded_addCountryHistory)
next
  assume "logsBounded ws"
  then show "logsBounded (applyChanges ws changes)" by (rule logsBounded_applyChanges)
next
  assume "logsBounded ws"
  then show "logsBounded (applyTensionChanges ws tcs)" by (rule logsBounded_applyTensionChanges)
next
  assume "logsBounded ws"
  then show "logsBounded (updateAlliances ws a b act)" by (rule logsBounded_updateAlliances)
qed

theorem bounded_logs_witness:
  "findCountry ''aurora'' (w_countries fullWorld) = Some ((mkCountry ''aurora'' 40 50)\<lparr>c_history := tenEntries\<rparr>) \<and>
   findCountry ''zephyr'' (w_countries fullWorld) = None \<and>
   logsBounded fullWorld \<and>
   w_globalEvents (addEvent fullWorld (mkEvent ''PEACE'' None)) =
     replicate 99 (mkEvent ''WAR'' None) @ [(mkEvent ''PEACE'' None)\<lparr>e_tick := 7, e_year := 7\<rparr>] \<and>
   map c_history (w_countries (addCountryHistory fullWorld ''aurora'' ''e10'')) =
     [[''e1'', ''e2'', ''e3'', ''e4'', ''e5'', ''e6'', ''e7'', ''e8'', ''e9'', ''e10'']] \<and>
   logsBounded (addEvent fullWorld (mkEvent ''PEACE'' None)) \<and>
   logsBounded (addCountryHistory fullWorld ''aurora'' ''e10'')"
proof -
  have f: "findCountry ''aurora'' (w_countries fullWorld) = Some ((mkCountry ''aurora'' 40 50)\<lparr>c_history := tenEntries\<rparr>)"
    by (simp add: findCountry_def fullWorld_def mkWorld_def mkCountry_def)
  have n: "findCountry ''zephyr'' (w_countries fullWorld) = None"
    by (simp add: findCountry_def fullWorld_def mkWorld_def mkCountry_def)
  have b: "logsBounded fullWorld"
    by (simp add: logsBounded_def fullWorld_def mkWorld_def mkCountry_def tenEntries_def)
  have e: "w_globalEvents (addEvent fullWorld (mkEvent ''PEACE'' None)) =
     replicate 99 (mkEvent ''WAR'' None) @ [(mkEvent ''PEACE'' None)\<lparr>e_tick := 7, e_year := 7\<rparr>]"
    by (simp add: addEvent_def Let_def slice_last_def fullWorld_def mkWorld_def)
  have h: "map c_history (w_countries (addCountryHistory fullWorld ''aurora'' ''e10'')) =
     [[''e1'', ''e2'', ''e3'', ''e4'', ''e5'', ''e6'', ''e7'', ''e8'', ''e9'', ''e10'']]"
    by (simp add: addCountryHistory_def pushHistory_def Let_def slice_last_def fullWorld_def
        mkWorld_def mkCountry_def tenEntries_def)
  from f n b e h show ?thesis
    using bounded_logs [of fullWorld "mkEvent ''PEACE'' None" "''aurora''"
        "(mkCountry ''aurora'' 40 50)\<lparr>c_history := tenEntries\<rparr>" "''e10''" "''zephyr''"
        "[]" "[]" "Some ''aurora''" None "''FORM''"]
    by simp
qed

section \<open>Properties of the action resolution\<close>

subsection \<open>Alliances\<close>

lemma alliance_ids [simp]:
  "c_id (formAlliance k c) = c_id c" "c_id (breakAlliance k c) = c_id c"
  by (simp_all add: formAlliance_def breakAlliance_def split: option.splits)

lemma mem_formAlliance: "i \<in> set (c_alliances (formAlliance (Some i) c))"
  by (simp add: formAlliance_def)

lemma formAlliance_keeps: "i \<in> set (c_alliances c) \<Longrightarrow> i \<in> set (c_alliances (formAlliance k c))"
  by (simp add: formAlliance_def split: option.splits)

lemma not_mem_breakAlliance: "i \<notin> set (c_alliances (breakAlliance (Some i) c))"
  by (simp add: breakAlliance_def)

lemma breakAlliance_keeps_out:
  "i \<notin> set (c_alliances c) \<Longrightarrow> i \<notin> set (c_alliances (breakAlliance k c))"
  by (simp add: breakAlliance_def)

lemma findCountry_updateFirstOpt_same:
  "(\<And>c. c_id (f c) = c_id c) \<Longrightarrow>
   findCountry k (updateFirstOpt (Some k) f cs) = map_option f (findCountry k cs)"
  unfolding findCountry_def updateFirstOpt_def option.inject
  by (rule find_update_first_same) simp

lemma findCountry_updateFirstOpt_other:
  "(\<And>c. c_id (f c) = c_id c) \<Longrightarrow> k \<noteq> k' \<Longrightarrow>
   findCountry k (updateFirstOpt (Some k') f cs) = findCountry k cs"
  unfolding findCountry_def updateFirstOpt_def option.inject
  by (rule find_update_first_other) auto

text \<open>The countries after both updates of \<open>updateAlliances\<close>, for two functions that keep the id.\<close>

lemma both_updates:
  assumes ids: "\<And>c. c_id (f c) = c_id c" "\<And>c. c_id (g c) = c_id c"
    and a: "findCountry a cs = Some ca" and b: "findCountry b cs = Some cb"
  shows "findCountry a (updateFirstOpt (Some b) g (updateFirstOpt (Some a) f cs)) =
           Some (if a = b then g (f ca) else f ca)"
    and "findCountry b (updateFirstOpt (Some b) g (updateFirstOpt (Some a) f cs)) =
           Some (if a = b then g (f ca) else g cb)"
proof -
  let ?cs1 = "updateFirstOpt (Some a) f cs"
  have a1: "findCountry a ?cs1 = Some (f ca)"
    using a by (simp add: findCountry_updateFirstOpt_same [OF ids(1)])
  have b1: "a \<noteq> b \<Longrightarrow> findCountry b ?cs1 = Some cb"
    using b by (simp add: findCountry_updateFirstOpt_other [OF ids(1)])
  have s: "findCountry b (updateFirstOpt (Some b) g ?cs1) = map_option g (findCountry b ?cs1)"
    by (rule findCountry_updateFirstOpt_same [OF ids(2)])
  have o: "a \<noteq> b \<Longrightarrow> findCountry a (updateFirstOpt (Some b) g ?cs1) = findCountry a ?cs1"
    by (rule findCountry_updateFirstOpt_other [OF ids(2)])
  show "findCountry a (updateFirstOpt (Some b) g ?cs1) = Some (if a = b then g (f ca) else f ca)"
  proof (cases "a = b")
    case True
    with s a1 show ?thesis by simp
  next
    case False
    with o a1 show ?thesis by simp
  qed
  show "findCountry b (updateFirstOpt (Some b) g ?cs1) = Some (if a = b then g (f ca) else g cb)"
  proof (cases "a = b")
    case True
    with s a1 show ?thesis by simp
  next
    case False
    with s b1 show ?thesis by simp
  qed
qed

lemma updateAlliances_FORM:
  assumes "findCountry a (w_countries ws) = Some ca" and "findCountry b (w_countries ws) = Some cb"
  shows "allied (updateAlliances ws (Some a) (Some b) ''FORM'') a b"
proof -
  let ?cs = "updateFirstOpt (Some b) (formAlliance (Some a))
      (updateFirstOpt (Some a) (formAlliance (Some b)) (w_countries ws))"
  have w: "w_countries (updateAlliances ws (Some a) (Some b) ''FORM'') = ?cs"
    using assms by (simp add: updateAlliances_def findCountryOpt_def)
  have fa: "findCountry a ?cs = Some (if a = b then formAlliance (Some a) (formAlliance (Some b) ca)
      else formAlliance (Some b) ca)"
    by (rule both_updates(1) [OF _ _ assms]) simp_all
  have fb: "findCountry b ?cs = Some (if a = b then formAlliance (Some a) (formAlliance (Some b) ca)
      else formAlliance (Some a) cb)"
    by (rule both_updates(2) [OF _ _ assms]) simp_all
  show ?thesis
    unfolding allied_def w fa fb
    by (simp add: mem_formAlliance formAlliance_keeps)
qed

lemma updateAlliances_BREAK:
  assumes "findCountry a (w_countries ws) = Some ca" and "findCountry b (w_countries ws) = Some cb"
  shows "unallied (updateAlliances ws (Some a) (Some b) ''BREAK'') a b"
proof -
  let ?cs = "updateFirstOpt (Some b) (breakAlliance (Some a))
      (updateFirstOpt (Some a) (breakAlliance (Some b)) (w_countries ws))"
  have w: "w_countries (updateAlliances ws (Some a) (Some b) ''BREAK'') = ?cs"
    using assms by (simp add: updateAlliances_def findCountryOpt_def)
  have fa: "findCountry a ?cs = Some (if a = b then breakAlliance (Some a) (breakAlliance (Some b) ca)
      else breakAlliance (Some b) ca)"
    by (rule both_updates(1) [OF _ _ assms]) simp_all
  have fb: "findCountry b ?cs = Some (if a = b then breakAlliance (Some a) (breakAlliance (Some b) ca)
      else breakAlliance (Some a) cb)"
    by (rule both_updates(2) [OF _ _ assms]) simp_all
  show ?thesis
    unfolding unallied_def w fa fb
    by (simp add: not_mem_breakAlliance breakAlliance_keeps_out)
qed

text \<open>
  Claim C8. For a \<open>form_alliance\<close> decision \<open>handleSpecialActions\<close> leaves the state as it
  is when the resolution did not succeed, and makes actor and target (both found in the
  state) allies of each other when it succeeded. For a \<open>break_alliance\<close> decision it
  removes each of the two from the allies of the other whatever the success flag of the
  resolution is.
\<close>

theorem alliance_special_actions:
  "(dc_specificAction d = ''form_alliance'' \<and> \<not> r_success r \<longrightarrow> handleSpecialActions ws d r = ws) \<and>
   (dc_specificAction d = ''form_alliance'' \<and> r_success r \<and>
    dc_actorId d = Some a \<and> dc_target d = Some b \<and>
    findCountry a (w_countries ws) = Some ca \<and> findCountry b (w_countries ws) = Some cb \<longrightarrow>
      allied (handleSpecialActions ws d r) a b) \<and>
   (dc_specificAction d = ''break_alliance'' \<and>
    dc_actorId d = Some a \<and> dc_target d = Some b \<and>
    findCountry a (w_countries ws) = Some ca \<and> findCountry b (w_countries ws) = Some cb \<longrightarrow>
      unallied (handleSpecialActions ws d r) a b \<and>
      handleSpecialActions ws d r = handleSpecialActions ws d (r\<lparr>r_success := \<not> r_success r\<rparr>))"
proof (intro conjI impI)
  assume "dc_specificAction d = ''form_alliance'' \<and> \<not> r_success r"
  then show "handleSpecialActions ws d r = ws"
    by (simp add: handleSpecialActions_def)
next
  assume h: "dc_specificAction d = ''form_alliance'' \<and> r_success r \<and>
    dc_actorId d = Some a \<and> dc_target d = Some b \<and>
    findCountry a (w_countries ws) = Some ca \<and> findCountry b (w_countries ws) = Some cb"
  then have "handleSpecialActions ws d r = updateAlliances ws (Some a) (Some b) ''FORM''"
    by (simp add: handleSpecialActions_def)
  with h show "allied (handleSpecialActions ws d r) a b"
    by (simp add: updateAlliances_FORM)
next
  assume h: "dc_specificAction d = ''break_alliance'' \<and>
    dc_actorId d = Some a \<and> dc_target d = Some b \<and>
    findCountry a (w_countries ws) = Some ca \<and> findCountry b (w_countries ws) = Some cb"
  then have "handleSpecialActions ws d r = updateAlliances ws (Some a) (Some b) ''BREAK''"
    by (simp add: handleSpecialActions_def)
  with h show "unallied (handleSpecialActions ws d r) a b"
    by (simp add: updateAlliances_BREAK)
next
  assume h: "dc_specificAction d = ''break_alliance'' \<and>
    dc_actorId d = Some a \<and> dc_target d = Some b \<and>
    findCountry a (w_countries ws) = Some ca \<and> findCountry b (w_countries ws) = Some cb"
  then show "handleSpecialActions ws d r = handleSpecialActions ws d (r\<lparr>r_success := \<not> r_success r\<rparr>)"
    by (simp add: handleSpecialActions_def)
qed

theorem alliance_special_actions_witness:
  "handleSpecialActions collapsedWorld
     (mkDecision ''DIPLOMACY'' ''form_alliance'' ''aurora'' (Some ''borealis'')) (mkResolution False) =
     collapsedWorld \<and>
   allied (handleSpecialActions collapsedWorld
     (mkDecision ''DIPLOMACY'' ''form_alliance'' ''aurora'' (Some ''borealis'')) (mkResolution True))
     ''aurora'' ''borealis'' \<and>
   map c_alliances (w_countries (handleSpecialActions collapsedWorld
     (mkDecision ''DIPLOMACY'' ''form_alliance'' ''aurora'' (Some ''borealis'')) (mkResolution True))) =
     [[''borealis''], [''aurora'']] \<and>
   unallied (handleSpecialActions alliedWorld
     (mkDecision ''DIPLOMACY'' ''break_alliance'' ''aurora'' (Some ''borealis'')) (mkResolution False))
     ''aurora'' ''borealis'' \<and>
   map c_alliances (w_countries (handleSpecialActions alliedWorld
     (mkDecision ''DIPLOMACY'' ''break_alliance'' ''aurora'' (Some ''borealis'')) (mkResolution False))) =
     [[], []]"
proof -
  let ?form = "mkDecision ''DIPLOMACY'' ''form_alliance'' ''aurora'' (Some ''borealis'')"
  let ?break = "mkDecision ''DIPLOMACY'' ''break_alliance'' ''aurora'' (Some ''borealis'')"
  have d: "dc_specificAction ?form = ''form_alliance''" "dc_actorId ?form = Some ''aurora''"
    "dc_target ?form = Some ''borealis''" "dc_specificAction ?break = ''break_alliance''"
    "dc_actorId ?break = Some ''aurora''" "dc_target ?break = Some ''borealis''"
    "r_success (mkResolution True)" "\<not> r_success (mkResolution False)"
    by (simp_all add: mkDecision_def mkResolution_def)
  have c: "findCountry ''aurora'' (w_countries collapsedWorld) = Some (mkCountry ''aurora'' 10 3)"
    "findCountry ''borealis'' (w_countries collapsedWorld) = Some (mkCountry ''borealis'' 60 70)"
    by (simp_all add: findCountry_def collapsedWorld_def mkWorld_def mkCountry_def)
  have a: "findCountry ''aurora'' (w_countries alliedWorld) =
      Some ((mkCountry ''aurora'' 40 50)\<lparr>c_alliances := [''borealis'']\<rparr>)"
    "findCountry ''borealis'' (w_countries alliedWorld) =
      Some ((mkCountry ''borealis'' 60 70)\<lparr>c_alliances := [''aurora'']\<rparr>)"
    by (simp_all add: findCountry_def alliedWorld_def mkWorld_def mkCountry_def)
  have v1: "map c_alliances (w_countries (handleSpecialActions collapsedWorld ?form (mkResolution True))) =
     [[''borealis''], [''aurora'']]"
    by (simp add: handleSpecialActions_def updateAlliances_def findCountryOpt_def findCountry_def
        updateFirstOpt_def formAlliance_def collapsedWorld_def mkWorld_def mkCountry_def
        mkDecision_def mkResolution_def)
  have v2: "map c_alliances (w_countries (handleSpecialActions alliedWorld ?break (mkResolution False))) =
     [[], []]"
    by (simp add: handleSpecialActions_def updateAlliances_def findCountryOpt_def findCountry_def
        updateFirstOpt_def breakAlliance_def alliedWorld_def mkWorld_def mkCountry_def
        mkDecision_def mkResolution_def)
  have w1: "handleSpecialActions collapsedWorld ?form (mkResolution False) = collapsedWorld"
    using alliance_special_actions [of ?form "mkResolution False" collapsedWorld] d by blast
  have w2: "allied (handleSpecialActions collapsedWorld ?form (mkResolution True)) ''aurora'' ''borealis''"
    using alliance_special_actions [of ?form "mkResolution True" collapsedWorld "''aurora''" "''borealis''"
        "mkCountry ''aurora'' 10 3" "mkCountry ''borealis'' 60 70"] d c by blast
  have w3: "unallied (handleSpecialActions alliedWorld ?break (mkResolution False)) ''aurora'' ''borealis''"
    using alliance_special_actions [of ?break "mkResolution False" alliedWorld "''aurora''" "''borealis''"
        "(mkCountry ''aurora'' 40 50)\<lparr>c_alliances := [''borealis'']\<rparr>"
        "(mkCountry ''borealis'' 60 70)\<lparr>c_alliances := [''aurora'']\<rparr>"] d a by blast
  from w1 w2 w3 v1 v2 show ?thesis by blast
qed

subsection \<open>The order of the decisions\<close>

lemma rank_not_inherited:
  "a \<notin> set objectPrototypeMembers \<Longrightarrow> rank a = Some (specRank a)"
  by (simp add: rank_def getProperty_def priority_def specRank_def)

lemma rank_inherited: "a \<in> set objectPrototypeMembers \<Longrightarrow> rank a = None"
  by (auto simp: rank_def getProperty_def priority_def objectPrototypeMembers_def)

lemma insertBy_insort_key:
  "(\<And>y. y \<in> set ys \<Longrightarrow> (sortOrder (cmp x y) \<le> 0) = (f x \<le> f y)) \<Longrightarrow>
   insertBy cmp x ys = insort_key f x ys" for f :: "'a \<Rightarrow> int"
  by (induction ys) simp_all

lemma arraySort_sort_key:
  "(\<And>x y. x \<in> set xs \<Longrightarrow> y \<in> set xs \<Longrightarrow> (sortOrder (cmp x y) \<le> 0) = (f x \<le> f y)) \<Longrightarrow>
   arraySort cmp xs = sort_key f xs" for f :: "'a \<Rightarrow> int"
proof (induction xs)
  case Nil
  then show ?case by (simp add: arraySort_def)
next
  case (Cons x xs)
  then have ih: "arraySort cmp xs = sort_key f xs" by simp
  have "insertBy cmp x (sort_key f xs) = insort_key f x (sort_key f xs)"
    by (rule insertBy_insort_key) (simp add: Cons.prems)
  with ih show ?case by (simp add: arraySort_def)
qed

text \<open>
  On decisions none of whose actions names an inherited member, \<open>prioritizeActions\<close>
  is the stable sort by the rank of the specification.
\<close>

lemma prioritizeActions_sort_key:
  assumes "list_all (\<lambda>d. dc_action d \<notin> set objectPrototypeMembers) ds"
  shows "prioritizeActions ds = sort_key (\<lambda>d. specRank (dc_action d)) ds"
  unfolding prioritizeActions_def
proof (rule arraySort_sort_key)
  fix x y
  assume "x \<in> set ds" and "y \<in> set ds"
  with assms have "rank (dc_action x) = Some (specRank (dc_action x))"
    and "rank (dc_action y) = Some (specRank (dc_action y))"
    by (simp_all add: list_all_iff rank_not_inherited)
  then show "(sortOrder (difference (rank (dc_action x)) (rank (dc_action y))) \<le> 0) =
      (specRank (dc_action x) \<le> specRank (dc_action y))"
    by (simp add: difference_def sortOrder_def)
qed

lemma prioritizeActions_stable_sort:
  assumes "list_all (\<lambda>d. dc_action d \<notin> set objectPrototypeMembers) ds"
  shows "sorted (map (\<lambda>d. specRank (dc_action d)) (prioritizeActions ds))"
    and "mset (prioritizeActions ds) = mset ds"
    and "filter (\<lambda>d. specRank (dc_action d) = k) (prioritizeActions ds) =
         filter (\<lambda>d. specRank (dc_action d) = k) ds"
  unfolding prioritizeActions_sort_key [OF assms]
  by (simp_all add: sort_key_stable)

lemma prioritizeActions_scenario:
  assumes "dc_action d1 = ''INTERNAL''" and "dc_action d2 = ''MILITARY''"
    and "dc_action d3 = ''DIPLOMACY''"
  shows "prioritizeActions [d1, d2, d3] = [d2, d3, d1]"
proof -
  have "list_all (\<lambda>d. dc_action d \<notin> set objectPrototypeMembers) [d1, d2, d3]"
    using assms by (simp add: objectPrototypeMembers_def)
  then have "prioritizeActions [d1, d2, d3] = sort_key (\<lambda>d. specRank (dc_action d)) [d1, d2, d3]"
    by (rule prioritizeActions_sort_key)
  also have "\<dots> = [d2, d3, d1]"
    using assms by (simp add: specRank_def)
  finally show ?thesis .
qed

text \<open>
  Claim C7. Three decisions with the actions INTERNAL, \<open>constructor\<close> and MILITARY, in
  this order. By the ranks of the claim (4, 99 and 1) the stable sort is MILITARY,
  INTERNAL, \<open>constructor\<close>. For \<open>constructor\<close> the lookup in \<open>priority\<close> finds the
  inherited member, not 99: its differences with the two others are \<open>NaN\<close>, and
  \<open>prioritizeActions\<close> returns the three decisions in the order of the input, which
  is not sorted by rank.
\<close>

theorem prioritizeActions_inherited_member:
  "rank ''constructor'' = None \<and> specRank ''constructor'' = 99 \<and>
   prioritizeActions inheritedInput = inheritedInput \<and>
   map (\<lambda>d. specRank (dc_action d)) (prioritizeActions inheritedInput) = [4, 99, 1] \<and>
   \<not> sorted (map (\<lambda>d. specRank (dc_action d)) (prioritizeActions inheritedInput)) \<and>
   sort_key (\<lambda>d. specRank (dc_action d)) inheritedInput =
     [mkDecision ''MILITARY'' ''declare_war'' ''cygnus'' (Some ''aurora''),
      mkDecision ''INTERNAL'' ''stabilize'' ''aurora'' None,
      mkDecision ''constructor'' ''stabilize'' ''borealis'' None]"
proof -
  have act: "dc_action (mkDecision x s i t) = x" for x s i t
    by (simp add: mkDecision_def)
  have rc: "rank ''constructor'' = None"
    by (rule rank_inherited) (simp add: objectPrototypeMembers_def)
  have ri: "rank ''INTERNAL'' = Some 4" and rm: "rank ''MILITARY'' = Some 1"
    by (simp_all add: rank_def getProperty_def priority_def)
  have sr: "specRank ''constructor'' = 99" "specRank ''INTERNAL'' = 4" "specRank ''MILITARY'' = 1"
    by (simp_all add: specRank_def)
  have same: "prioritizeActions inheritedInput = inheritedInput"
    by (simp add: prioritizeActions_def arraySort_def inheritedInput_def act rc ri rm
        difference_def sortOrder_def)
  have ranks: "map (\<lambda>d. specRank (dc_action d)) (prioritizeActions inheritedInput) = [4, 99, 1]"
    unfolding same by (simp add: inheritedInput_def act sr)
  have unsorted: "\<not> sorted (map (\<lambda>d. specRank (dc_action d)) (prioritizeActions inheritedInput))"
    unfolding ranks by simp
  have spec: "sort_key (\<lambda>d. specRank (dc_action d)) inheritedInput =
     [mkDecision ''MILITARY'' ''declare_war'' ''cygnus'' (Some ''aurora''),
      mkDecision ''INTERNAL'' ''stabilize'' ''aurora'' None,
      mkDecision ''constructor'' ''stabilize'' ''borealis'' None]"
    by (simp add: inheritedInput_def act sr)
  from rc sr(1) same ranks unsorted spec show ?thesis by (intro conjI)
qed

section \<open>Properties of the termination check\<close>

lemma no_survivor_iff:
  "length (filter (\<lambda>c. c_stability c > 20) cs) = 0 \<longleftrightarrow> list_all (\<lambda>c. \<not> c_stability c > 20) cs"
  by (induction cs) auto

lemma shouldTerminate_time_limit:
  "timeLimitCond ws maxYears \<Longrightarrow> shouldTerminate ws maxYears = Terminate TIME_LIMIT"
  by (simp add: shouldTerminate_def timeLimitCond_def)

lemma shouldTerminate_hegemony:
  "\<not> timeLimitCond ws maxYears \<Longrightarrow> hegemonyCond ws \<Longrightarrow>
   shouldTerminate ws maxYears = Terminate HEGEMONY"
  by (simp add: shouldTerminate_def timeLimitCond_def hegemonyCond_def)

lemma shouldTerminate_total_collapse:
  "\<not> timeLimitCond ws maxYears \<Longrightarrow> \<not> hegemonyCond ws \<Longrightarrow> totalCollapseCond ws \<Longrightarrow>
   shouldTerminate ws maxYears = Terminate TOTAL_COLLAPSE"
  unfolding shouldTerminate_def timeLimitCond_def hegemonyCond_def totalCollapseCond_def
    no_survivor_iff [symmetric] Let_def
  by simp

lemma shouldTerminate_last:
  "\<not> timeLimitCond ws maxYears \<Longrightarrow> \<not> hegemonyCond ws \<Longrightarrow> \<not> totalCollapseCond ws \<Longrightarrow>
   shouldTerminate ws maxYears = Terminate PERFECT_ORDER \<or> shouldTerminate ws maxYears = Continue"
  unfolding shouldTerminate_def timeLimitCond_def hegemonyCond_def totalCollapseCond_def
    no_survivor_iff [symmetric] Let_def
  by simp

text \<open>
  Claim C6. \<open>shouldTerminate\<close> answers TIME_LIMIT whenever the year has reached
  \<open>maxYears\<close>, whatever else holds; otherwise HEGEMONY when exactly one country has
  power above 50 and stability above 30 and there is more than one country; otherwise
  TOTAL_COLLAPSE when no country has stability above 20; and only when none of the three
  holds does it answer PERFECT_ORDER or no termination. A state that has both reached
  the time limit and has no country with stability above 20 gives TIME_LIMIT.
\<close>

theorem shouldTerminate_priority:
  "(timeLimitCond ws maxYears \<longrightarrow> shouldTerminate ws maxYears = Terminate TIME_LIMIT) \<and>
   (\<not> timeLimitCond ws maxYears \<and> hegemonyCond ws \<longrightarrow>
      shouldTerminate ws maxYears = Terminate HEGEMONY) \<and>
   (\<not> timeLimitCond ws maxYears \<and> \<not> hegemonyCond ws \<and> totalCollapseCond ws \<longrightarrow>
      shouldTerminate ws maxYears = Terminate TOTAL_COLLAPSE) \<and>
   (\<not> timeLimitCond ws maxYears \<and> \<not> hegemonyCond ws \<and> \<not> totalCollapseCond ws \<longrightarrow>
      shouldTerminate ws maxYears = Terminate PERFECT_ORDER \<or> shouldTerminate ws maxYears = Continue) \<and>
   (w_year ws \<ge> maxYears \<and> (\<forall>c \<in> set (w_countries ws). \<not> c_stability c > 20) \<longrightarrow>
      shouldTerminate ws maxYears = Terminate TIME_LIMIT)"
proof (intro conjI impI)
  show "shouldTerminate ws maxYears = Terminate TIME_LIMIT" if "timeLimitCond ws maxYears"
    using that by (rule shouldTerminate_time_limit)
  show "shouldTerminate ws maxYears = Terminate HEGEMONY"
    if "\<not> timeLimitCond ws maxYears \<and> hegemonyCond ws"
    using that by (simp add: shouldTerminate_hegemony)
  show "shouldTerminate ws maxYears = Terminate TOTAL_COLLAPSE"
    if "\<not> timeLimitCond ws maxYears \<and> \<not> hegemonyCond ws \<and> totalCollapseCond ws"
    using that by (simp add: shouldTerminate_total_collapse)
  show "shouldTerminate ws maxYears = Terminate PERFECT_ORDER \<or> shouldTerminate ws maxYears = Continue"
    if "\<not> timeLimitCond ws maxYears \<and> \<not> hegemonyCond ws \<and> \<not> totalCollapseCond ws"
    using that by (simp add: shouldTerminate_last)
  show "shouldTerminate ws maxYears = Terminate TIME_LIMIT"
    if "w_year ws \<ge> maxYears \<and> (\<forall>c \<in> set (w_countries ws). \<not> c_stability c > 20)"
    using that by (simp add: shouldTerminate_def)
qed

theorem shouldTerminate_priority_witness:
  "timeLimitCond (ruinedWorld 1000) 1000 \<and> totalCollapseCond (ruinedWorld 1000) \<and>
   w_year (ruinedWorld 1000) \<ge> 1000 \<and>
   shouldTerminate (ruinedWorld 1000) 1000 = Terminate TIME_LIMIT \<and>
   \<not> timeLimitCond hegemonWorld 1000 \<and> hegemonyCond hegemonWorld \<and>
   shouldTerminate hegemonWorld 1000 = Terminate HEGEMONY \<and>
   \<not> timeLimitCond (ruinedWorld 4) 1000 \<and> \<not> hegemonyCond (ruinedWorld 4) \<and>
   totalCollapseCond (ruinedWorld 4) \<and>
   shouldTerminate (ruinedWorld 4) 1000 = Terminate TOTAL_COLLAPSE \<and>
   \<not> timeLimitCond (calmWorld []) 1000 \<and> \<not> hegemonyCond (calmWorld []) \<and>
   \<not> totalCollapseCond (calmWorld []) \<and>
   shouldTerminate (calmWorld []) 1000 = Continue"
proof -
  have r: "timeLimitCond (ruinedWorld 1000) 1000" "totalCollapseCond (ruinedWorld 1000)"
    "w_year (ruinedWorld 1000) \<ge> 1000"
    "\<forall>c \<in> set (w_countries (ruinedWorld 1000)). \<not> c_stability c > 20"
    by (simp_all add: timeLimitCond_def totalCollapseCond_def ruinedWorld_def mkWorld_def mkCountry_def)
  have h: "\<not> timeLimitCond hegemonWorld 1000" "hegemonyCond hegemonWorld"
    by (simp_all add: timeLimitCond_def hegemonyCond_def hegemonWorld_def mkWorld_def mkCountry_def)
  have t: "\<not> timeLimitCond (ruinedWorld 4) 1000" "\<not> hegemonyCond (ruinedWorld 4)"
    "totalCollapseCond (ruinedWorld 4)"
    by (simp_all add: timeLimitCond_def hegemonyCond_def totalCollapseCond_def ruinedWorld_def
        mkWorld_def mkCountry_def)
  have c: "\<not> timeLimitCond (calmWorld []) 1000" "\<not> hegemonyCond (calmWorld [])"
    "\<not> totalCollapseCond (calmWorld [])"
    by (simp_all add: timeLimitCond_def hegemonyCond_def totalCollapseCond_def calmWorld_def
        mkWorld_def mkCountry_def)
  have np: "shouldTerminate (calmWorld []) 1000 \<noteq> Terminate PERFECT_ORDER"
    by (simp add: shouldTerminate_def calmWorld_def mkWorld_def mkCountry_def slice_last_def)
  have v1: "shouldTerminate (ruinedWorld 1000) 1000 = Terminate TIME_LIMIT"
    using shouldTerminate_priority [of "ruinedWorld 1000" 1000] r(3,4) by (elim conjE) simp
  have v2: "shouldTerminate hegemonWorld 1000 = Terminate HEGEMONY"
    using shouldTerminate_priority [of hegemonWorld 1000] h by (elim conjE) simp
  have v3: "shouldTerminate (ruinedWorld 4) 1000 = Terminate TOTAL_COLLAPSE"
    using shouldTerminate_priority [of "ruinedWorld 4" 1000] t by (elim conjE) simp
  have v4: "shouldTerminate (calmWorld []) 1000 = Terminate PERFECT_ORDER \<or>
      shouldTerminate (calmWorld []) 1000 = Continue"
    using shouldTerminate_priority [of "calmWorld []" 1000] c by (elim conjE) simp
  from v4 np have cv: "shouldTerminate (calmWorld []) 1000 = Continue" by simp
  from r(1-3) h t c cv v1 v2 v3 show ?thesis by (intro conjI)
qed

lemma shouldTerminate_perfect_order_iff:
  "shouldTerminate ws maxYears = Terminate PERFECT_ORDER \<longleftrightarrow>
     \<not> timeLimitCond ws maxYears \<and> \<not> hegemonyCond ws \<and> \<not> totalCollapseCond ws \<and>
     length (filter isTickSummary (slice_last 20 (w_globalEvents ws))) \<ge> 20 \<and>
     list_all reportsAtLeast95 (filter isTickSummary (slice_last 20 (w_globalEvents ws)))"
proof -
  have m: "list_all (\<lambda>s. s \<ge> 95) (map (\<lambda>e. case e_stabilityIndex e of None \<Rightarrow> 0 | Some s \<Rightarrow> s) es)
      = list_all reportsAtLeast95 es" for es
    by (induction es) (auto simp: reportsAtLeast95_def split: option.splits)
  have f: "filter (\<lambda>e. e_type e = TypeName ''TICK_SUMMARY'') es = filter isTickSummary es" for es
    by (simp add: isTickSummary_def [abs_def])
  show ?thesis
    unfolding shouldTerminate_def timeLimitCond_def hegemonyCond_def totalCollapseCond_def
      no_survivor_iff [symmetric] Let_def m f length_map
    by simp
qed

text \<open>
  A log whose entries have no \<open>stabilityIndex\<close>, as all entries built by the engine
  are, never gives PERFECT_ORDER, and \<open>addEvent\<close> with such an entry keeps such a log.
\<close>

lemma no_index_no_perfect_order:
  assumes "list_all (\<lambda>e. e_stabilityIndex e = None) (w_globalEvents ws)"
  shows "shouldTerminate ws maxYears \<noteq> Terminate PERFECT_ORDER"
proof
  assume "shouldTerminate ws maxYears = Terminate PERFECT_ORDER"
  then have len: "length (filter isTickSummary (slice_last 20 (w_globalEvents ws))) \<ge> 20"
    and all: "list_all reportsAtLeast95 (filter isTickSummary (slice_last 20 (w_globalEvents ws)))"
    by (simp_all add: shouldTerminate_perfect_order_iff)
  from len obtain e where e: "e \<in> set (filter isTickSummary (slice_last 20 (w_globalEvents ws)))"
    by (cases "filter isTickSummary (slice_last 20 (w_globalEvents ws))") auto
  then have "e \<in> set (w_globalEvents ws)"
    by (auto simp: slice_last_def dest: in_set_dropD)
  with assms have "e_stabilityIndex e = None" by (simp add: list_all_iff)
  moreover from all e have "reportsAtLeast95 e" by (simp add: list_all_iff)
  ultimately show False by (simp add: reportsAtLeast95_def)
qed

lemma engine_events_no_index:
  "e_stabilityIndex (resolutionEvent d r) = None" "e_stabilityIndex (failedActionEvent d) = None"
  by (simp_all add: resolutionEvent_def failedActionEvent_def)

lemma addEvent_no_index:
  assumes "list_all (\<lambda>e. e_stabilityIndex e = None) (w_globalEvents ws)"
    and "e_stabilityIndex ev = None"
  shows "list_all (\<lambda>e. e_stabilityIndex e = None) (w_globalEvents (addEvent ws ev))"
proof -
  have "set (w_globalEvents (addEvent ws ev)) \<subseteq>
      set (w_globalEvents ws @ [ev\<lparr>e_tick := w_tick ws, e_year := w_year ws\<rparr>])"
    unfolding globalEvents_addEvent slice_last_def by (rule set_drop_subset)
  with assms show ?thesis by (auto simp: list_all_iff)
qed

text \<open>
  Claim C1. The event log holds twenty tick-summary entries that all report a stability
  index of 96, followed by one WAR event; no earlier condition of \<open>shouldTerminate\<close>
  holds. The most recent twenty tick-summary entries all report at least 95, yet
  \<open>shouldTerminate\<close> does not terminate: it takes the last twenty entries of the log
  first and keeps the tick summaries among them, which are nineteen.
\<close>

theorem perfect_order_missed:
  "perfectOrderSpec (calmWorld summaryThenWar) \<and>
   \<not> timeLimitCond (calmWorld summaryThenWar) 1000 \<and>
   \<not> hegemonyCond (calmWorld summaryThenWar) \<and>
   \<not> totalCollapseCond (calmWorld summaryThenWar) \<and>
   length (filter isTickSummary (slice_last 20 (w_globalEvents (calmWorld summaryThenWar)))) = 19 \<and>
   shouldTerminate (calmWorld summaryThenWar) 1000 = Continue"
proof -
  have s: "isTickSummary (mkEvent ''TICK_SUMMARY'' (Some 96))" "\<not> isTickSummary (mkEvent ''WAR'' None)"
    "reportsAtLeast95 (mkEvent ''TICK_SUMMARY'' (Some 96))"
    by (simp_all add: isTickSummary_def reportsAtLeast95_def mkEvent_def)
  have evs: "w_globalEvents (calmWorld summaryThenWar) = summaryThenWar"
    by (simp add: calmWorld_def mkWorld_def)
  have last20: "slice_last 20 summaryThenWar =
      replicate 19 (mkEvent ''TICK_SUMMARY'' (Some 96)) @ [mkEvent ''WAR'' None]"
    by (simp add: slice_last_def summaryThenWar_def)
  have spec: "perfectOrderSpec (calmWorld summaryThenWar)"
    unfolding perfectOrderSpec_def evs Let_def
    by (simp add: summaryThenWar_def s slice_last_def list_all_iff)
  have c: "\<not> timeLimitCond (calmWorld summaryThenWar) 1000"
    "\<not> hegemonyCond (calmWorld summaryThenWar)" "\<not> totalCollapseCond (calmWorld summaryThenWar)"
    by (simp_all add: timeLimitCond_def hegemonyCond_def totalCollapseCond_def calmWorld_def
        mkWorld_def mkCountry_def)
  have n: "length (filter isTickSummary (slice_last 20 (w_globalEvents (calmWorld summaryThenWar)))) = 19"
    unfolding evs last20 by (simp add: s)
  then have "shouldTerminate (calmWorld summaryThenWar) 1000 \<noteq> Terminate PERFECT_ORDER"
    by (simp add: shouldTerminate_perfect_order_iff)
  moreover have "shouldTerminate (calmWorld summaryThenWar) 1000 = Terminate PERFECT_ORDER \<or>
      shouldTerminate (calmWorld summaryThenWar) 1000 = Continue"
    using c by (rule shouldTerminate_last)
  ultimately have "shouldTerminate (calmWorld summaryThenWar) 1000 = Continue" by simp
  with spec c n show ?thesis by (intro conjI)
qed

section \<open>Properties of the decision collection\<close>

lemma callWithRetryLoop_result_ok:
  "callWithRetryLoop call i n = Inr r \<Longrightarrow> cr_error r = None"
  by (induction call i n rule: callWithRetryLoop.induct)
    (auto simp: Let_def split: option.splits if_splits)

text \<open>
  \<open>callWithRetry\<close> never returns a result that carries an error, so the branch of
  \<open>collectDecisions\<close> that pushes the fallback decision is never taken: a round of the
  loop adds the decision of the agent or nothing.
\<close>

lemma callWithRetry_result_ok: "callWithRetry call n = Inr r \<Longrightarrow> cr_error r = None"
  unfolding callWithRetry_def by (rule callWithRetryLoop_result_ok)

lemma collectStep_cases:
  "collectStep service ws ds a = ds \<or>
   (\<exists>r. callWithRetry (service (a_id a)) 3 = Inr r \<and> collectStep service ws ds a = ds @ [agentDecision a r])"
  by (auto simp: collectStep_def dest: callWithRetry_result_ok split: option.splits sum.splits)

lemma collectStep_failure_drops:
  "callWithRetry (service (a_id a)) 3 = Inl e \<Longrightarrow> collectStep service ws ds a = ds"
  by (simp add: collectStep_def split: option.splits)

text \<open>
  Claim C2. Three eligible factions; the call for the first fails with an error that is
  not retried, the call for the third with the rate limit at each of its three attempts,
  so that \<open>callWithRetry\<close> throws for both. \<open>collectDecisions\<close> returns the decision
  of the second faction alone: the first and the third get no decision, and no fallback
  decision is among the decisions collected.
\<close>

theorem failed_faction_dropped:
  "eligible threeFactions (leader ''leader_0'' ''aurora'') \<and>
   eligible threeFactions (leader ''leader_2'' ''cygnus'') \<and>
   callWithRetry (failingService ''leader_0'') 3 = Inl ''network down'' \<and>
   callWithRetry (failingService ''leader_2'') 3 = Inl ''Max retries reached for Gemini API call'' \<and>
   collectDecisions failingService
     [leader ''leader_0'' ''aurora'', leader ''leader_1'' ''borealis'', leader ''leader_2'' ''cygnus'']
     threeFactions =
     [agentDecision (leader ''leader_1'' ''borealis'') okResult] \<and>
   fallbackDecision (leader ''leader_0'' ''aurora'') \<notin>
     set (collectDecisions failingService
       [leader ''leader_0'' ''aurora'', leader ''leader_1'' ''borealis'', leader ''leader_2'' ''cygnus'']
       threeFactions)"
proof -
  have e: "eligible threeFactions (leader ''leader_0'' ''aurora'')"
    "eligible threeFactions (leader ''leader_2'' ''cygnus'')"
    by (simp_all add: eligible_def leader_def findCountryOpt_def findCountry_def threeFactions_def
        mkWorld_def mkCountry_def)
  have c0: "callWithRetry (failingService ''leader_0'') 3 = Inl ''network down''"
    by (simp add: callWithRetry_def numeral_3_eq_3 failingService_def failResult_def)
  have c2: "callWithRetry (failingService ''leader_2'') 3 = Inl ''Max retries reached for Gemini API call''"
    by (simp add: callWithRetry_def numeral_3_eq_3 failingService_def failResult_def)
  have c1: "callWithRetry (failingService ''leader_1'') 3 = Inr okResult"
    by (simp add: callWithRetry_def numeral_3_eq_3 failingService_def okResult_def)
  have ids: "a_id (leader i k) = i" "a_role (leader i k) = ''LEADER''"
    "a_countryId (leader i k) = Some k" for i k
    by (simp_all add: leader_def)
  have f: "findCountryOpt (Some ''aurora'') (w_countries threeFactions) = Some (mkCountry ''aurora'' 40 50)"
    "findCountryOpt (Some ''borealis'') (w_countries threeFactions) = Some (mkCountry ''borealis'' 45 60)"
    "findCountryOpt (Some ''cygnus'') (w_countries threeFactions) = Some (mkCountry ''cygnus'' 30 40)"
    by (simp_all add: findCountryOpt_def findCountry_def threeFactions_def mkWorld_def mkCountry_def)
  have s0: "collectStep failingService threeFactions ds (leader ''leader_0'' ''aurora'') = ds" for ds
    by (rule collectStep_failure_drops) (simp add: ids c0)
  have s2: "collectStep failingService threeFactions ds (leader ''leader_2'' ''cygnus'') = ds" for ds
    by (rule collectStep_failure_drops) (simp add: ids c2)
  have ok: "cr_error okResult = None" by (simp add: okResult_def)
  have p: "\<not> (c_stability (mkCountry ''borealis'' 45 60) < 10 \<and> c_power (mkCountry ''borealis'' 45 60) < 10)"
    by (simp add: mkCountry_def)
  have s1: "collectStep failingService threeFactions ds (leader ''leader_1'' ''borealis'') =
      ds @ [agentDecision (leader ''leader_1'' ''borealis'') okResult]" for ds
    unfolding collectStep_def ids f using p by (simp add: c1 ok)
  have all: "collectDecisions failingService
     [leader ''leader_0'' ''aurora'', leader ''leader_1'' ''borealis'', leader ''leader_2'' ''cygnus'']
     threeFactions = [agentDecision (leader ''leader_1'' ''borealis'') okResult]"
    by (simp add: collectDecisions_def s0 s1 s2)
  have "fallbackDecision (leader ''leader_0'' ''aurora'') \<noteq>
      agentDecision (leader ''leader_1'' ''borealis'') okResult"
    by (simp add: fallbackDecision_def agentDecision_def okResult_def)
  with e c0 c2 all show ?thesis by simp
qed

end
